theory Spec2Isabelle
  imports Complex_Main
begin

section \<open>Entities of the API (api/models.py)\<close>

text \<open>
  Every SQLModel table class is a record; a table is the list of its rows in insertion
  order, and \<open>.first()\<close> of a query is the first row of that list that satisfies the
  \<open>where\<close> clause. Primary keys are natural numbers. The \<open>float\<close> columns
  (\<open>weight\<close>, \<open>rpe\<close>, \<open>value\<close>) are real numbers: the store (SQLite, the
  engine of \<open>db.py\<close> when no URL is configured) holds no NaN, it binds one as NULL and the
  columns are NOT NULL. The values are the exact ones: the rounding of IEEE doubles and the
  infinities are not modelled. The \<open>created_at\<close> columns (a clock reading) are left out.

  An endpoint takes the store and the authenticated user and returns either the
  \<open>HTTPException\<close> it raises, the store then being as before (nothing was committed), or
  the committed store with its response. A query sees the rows added earlier in the same
  request.
\<close>

record user =
  user_id :: nat
  email :: string
  username :: string
  password_hash :: string
  display_name :: string

record exercise =
  ex_id :: nat
  ex_owner_id :: nat
  ex_name :: string
  ex_muscle_group :: string
  ex_type :: string
  ex_equipment :: string
  ex_notes :: string

record program =
  pr_id :: nat
  pr_owner_id :: nat
  pr_name :: string
  pr_description :: string
  pr_start_date :: string
  pr_end_date :: string
  pr_status :: string
  pr_version :: int
  pr_visibility :: string
  pr_is_public :: bool

record workout_template =
  tpl_id :: nat
  tpl_program_id :: nat
  tpl_owner_id :: nat
  tpl_name :: string

record template_exercise =
  row_id :: nat
  row_template_id :: nat
  row_exercise_id :: nat
  row_planned_sets :: string
  row_reps :: string
  row_planned_weight :: string
  row_rpe :: string
  row_rest :: string
  row_comment :: string

record workout_session =
  sess_id :: nat
  sess_owner_id :: nat
  sess_template_id :: nat
  sess_program_id :: nat
  sess_template_name :: string
  sess_program_name :: string
  sess_date :: string
  sess_status :: string

record set_log =
  log_id :: nat
  log_session_id :: nat
  log_exercise_id :: nat
  log_set_number :: int
  log_weight :: real
  log_reps :: int
  log_rpe :: real
  log_comment :: string

record personal_best =
  pb_id :: nat
  pb_owner_id :: nat
  pb_exercise_id :: nat
  pb_kind :: string
  pb_label :: string
  pb_value :: real
  pb_reps :: int
  pb_date :: string
  pb_set_log_id :: nat
  pb_is_public :: bool

record friend_request =
  fr_id :: nat
  fr_from_user_id :: nat
  fr_to_user_id :: nat
  fr_status :: string

record friendship =
  fs_id :: nat
  fs_user_id :: nat
  fs_friend_id :: nat

record db =
  users :: "user list"
  exercises :: "exercise list"
  programs :: "program list"
  workout_templates :: "workout_template list"
  template_exercises :: "template_exercise list"
  sessions :: "workout_session list"
  set_logs :: "set_log list"
  personal_bests :: "personal_best list"
  friend_requests :: "friend_request list"
  friendships :: "friendship list"

text \<open>
  \<open>HTTPException(status_code, detail)\<close>, or an exception of another class, named, that
  no handler of the application catches.
\<close>

datatype http_error = HTTPException nat string | Unhandled string

text \<open>
  A \<open>float\<close> as a request body, a command-line argument or the JSON file carries it: a
  number or NaN (\<open>float\<close> and \<open>json\<close> read the literal). A comparison with NaN is
  false and a product with NaN is NaN. The infinities and the rounding are left out.
\<close>

datatype pyfloat = Num real | NaN

definition float_le :: "pyfloat \<Rightarrow> pyfloat \<Rightarrow> bool" where
  "float_le a b = (case a of Num x \<Rightarrow> (case b of Num y \<Rightarrow> x \<le> y | NaN \<Rightarrow> False) | NaN \<Rightarrow> False)"

definition float_mul :: "pyfloat \<Rightarrow> pyfloat \<Rightarrow> pyfloat" where
  "float_mul a b = (case a of Num x \<Rightarrow> (case b of Num y \<Rightarrow> Num (x * y) | NaN \<Rightarrow> NaN) | NaN \<Rightarrow> NaN)"

text \<open>The integers an INTEGER column of the store takes (64 bits, signed).\<close>

definition sqlite_integer :: "int \<Rightarrow> bool" where
  "sqlite_integer i \<longleftrightarrow> - (2 ^ 63) \<le> i \<and> i < 2 ^ 63"

subsection \<open>Store primitives\<close>

text \<open>
  A row added without an id gets the next integer primary key: one more than the largest
  key of the table (1 in an empty table).
\<close>

definition next_id :: "nat list \<Rightarrow> nat" where
  "next_id ids = Suc (fold max ids 0)"

text \<open>Assigning to the attributes of the object a query returned changes that row.\<close>

fun update_first :: "('a \<Rightarrow> bool) \<Rightarrow> ('a \<Rightarrow> 'a) \<Rightarrow> 'a list \<Rightarrow> 'a list" where
  "update_first P f [] = []"
| "update_first P f (x # xs) = (if P x then f x # xs else x # update_first P f xs)"

text \<open>
  Decimal text of an integer, as an f-string prints it. \<open>digit_char\<close> is only applied
  to numbers below ten.
\<close>

definition digit_char :: "nat \<Rightarrow> char" where
  "digit_char n = ''0123456789'' ! n"

fun str_of_nat :: "nat \<Rightarrow> string" where
  "str_of_nat n =
     (if n < 10 then [digit_char n] else str_of_nat (n div 10) @ [digit_char (n mod 10)])"

definition str_of_int :: "int \<Rightarrow> string" where
  "str_of_int i = (if i < 0 then CHR ''-'' # str_of_nat (nat (- i)) else str_of_nat (nat i))"

section \<open>Personal bests (api/main.py)\<close>

text \<open>
  \<open>estimate_one_rm\<close>, in exact arithmetic: the code computes the quotient, the sum and
  the product in IEEE doubles, and their rounding is not modelled.
\<close>

definition estimate_one_rm :: "real \<Rightarrow> int \<Rightarrow> real" where
  "estimate_one_rm weight reps = weight * (1 + real_of_int reps / 30)"

text \<open>
  The \<open>where\<close> clause of the lookup in \<open>update_personal_bests\<close>: owner, exercise and
  kind, and the rep count unless the kind is \<open>est_1rm\<close>.
\<close>

definition pb_query :: "nat \<Rightarrow> nat \<Rightarrow> string \<Rightarrow> int \<Rightarrow> personal_best \<Rightarrow> bool" where
  "pb_query owner_id exercise_id kind reps pb \<longleftrightarrow>
     pb_owner_id pb = owner_id \<and> pb_exercise_id pb = exercise_id \<and> pb_kind pb = kind \<and>
     (if kind \<noteq> ''est_1rm'' then pb_reps pb = reps else True)"

definition pb_entries :: "set_log \<Rightarrow> (string \<times> string \<times> real) list" where
  "pb_entries set_log =
     [(''est_1rm'', ''1RM (est)'', estimate_one_rm (log_weight set_log) (log_reps set_log)),
      (''max_weight_reps'', ''Max weight for '' @ str_of_int (log_reps set_log) @ '' reps'',
         log_weight set_log),
      (''max_volume'', ''Max volume'', log_weight set_log * real_of_int (log_reps set_log))]"

text \<open>The body of the loop over \<open>entries\<close>, on the PersonalBest table.\<close>

definition pb_merge ::
  "nat \<Rightarrow> workout_session \<Rightarrow> set_log \<Rightarrow> string \<times> string \<times> real \<Rightarrow>
   personal_best list \<Rightarrow> personal_best list" where
  "pb_merge owner_id session set_log entry pbs =
     (case entry of (kind, label, val) \<Rightarrow>
        (case find (pb_query owner_id (log_exercise_id set_log) kind (log_reps set_log)) pbs of
           Some existing \<Rightarrow>
             if val > pb_value existing
             then update_first (pb_query owner_id (log_exercise_id set_log) kind (log_reps set_log))
                    (\<lambda>pb. pb\<lparr>pb_value := val, pb_reps := log_reps set_log,
                              pb_date := sess_date session, pb_set_log_id := log_id set_log,
                              pb_label := label\<rparr>) pbs
             else pbs
         | None \<Rightarrow>
             pbs @ [\<lparr>pb_id = next_id (map pb_id pbs), pb_owner_id = owner_id,
                     pb_exercise_id = log_exercise_id set_log, pb_kind = kind, pb_label = label,
                     pb_value = val, pb_reps = log_reps set_log, pb_date = sess_date session,
                     pb_set_log_id = log_id set_log, pb_is_public = False\<rparr>]))"

definition update_personal_bests :: "db \<Rightarrow> nat \<Rightarrow> workout_session \<Rightarrow> set_log \<Rightarrow> db" where
  "update_personal_bests d owner_id session set_log =
     d\<lparr>personal_bests :=
          fold (pb_merge owner_id session set_log) (pb_entries set_log) (personal_bests d)\<rparr>"

section \<open>Sessions (api/main.py)\<close>

definition ensure_owner :: "nat \<Rightarrow> user \<Rightarrow> http_error + unit" where
  "ensure_owner obj_owner_id u =
     (if obj_owner_id \<noteq> user_id u then Inl (HTTPException 403 ''Not allowed'') else Inr ())"

definition serialize_session :: "db \<Rightarrow> workout_session \<Rightarrow> workout_session \<times> set_log list" where
  "serialize_session d sess = (sess, filter (\<lambda>l. log_session_id l = sess_id sess) (set_logs d))"

record set_log_payload =
  p_exercise_id :: nat
  p_set_number :: int
  p_weight :: pyfloat
  p_reps :: int
  p_rpe :: pyfloat
  p_comment :: string

text \<open>
  \<open>log_set\<close>: the session is looked up and its owner checked; its status is not read.
  The commit then inserts the row. The store refuses to bind an integer outside the 64-bit
  range (OverflowError), in the lookup as in the insert, and binds a NaN weight or rpe as
  NULL, which the NOT NULL constraint of the column rejects (IntegrityError). Neither
  exception is caught, and nothing is stored.
\<close>

definition log_set :: "db \<Rightarrow> user \<Rightarrow> nat \<Rightarrow> set_log_payload \<Rightarrow> http_error + db \<times> set_log" where
  "log_set d u session_id payload =
     (if \<not> sqlite_integer (int session_id) then Inl (Unhandled ''OverflowError'')
      else
        (case find (\<lambda>s. sess_id s = session_id) (sessions d) of
           None \<Rightarrow> Inl (HTTPException 404 ''Session not found'')
         | Some sess \<Rightarrow>
             (case ensure_owner (sess_owner_id sess) u of
                Inl e \<Rightarrow> Inl e
              | Inr _ \<Rightarrow>
                  if \<not> (sqlite_integer (int (p_exercise_id payload)) \<and>
                          sqlite_integer (p_set_number payload) \<and>
                          sqlite_integer (p_reps payload))
                  then Inl (Unhandled ''OverflowError'')
                  else
                    (case p_weight payload of
                       NaN \<Rightarrow> Inl (Unhandled ''IntegrityError'')
                     | Num weight \<Rightarrow>
                         (case p_rpe payload of
                            NaN \<Rightarrow> Inl (Unhandled ''IntegrityError'')
                          | Num rpe \<Rightarrow>
                              let db_log = \<lparr>log_id = next_id (map log_id (set_logs d)),
                                             log_session_id = session_id,
                                             log_exercise_id = p_exercise_id payload,
                                             log_set_number = p_set_number payload,
                                             log_weight = weight,
                                             log_reps = p_reps payload,
                                             log_rpe = rpe,
                                             log_comment = p_comment payload\<rparr>
                              in Inr (d\<lparr>set_logs := set_logs d @ [db_log]\<rparr>, db_log))))))"

text \<open>The loop \<open>for log in set_logs: update_personal_bests(db, user.id, sess, log)\<close>.\<close>

definition merge_set_logs :: "db \<Rightarrow> nat \<Rightarrow> workout_session \<Rightarrow> set_log list \<Rightarrow> db" where
  "merge_set_logs d owner_id session logs =
     fold (\<lambda>set_log d'. update_personal_bests d' owner_id session set_log) logs d"

text \<open>
  \<open>finish_session\<close>: the status is set to \<open>done\<close> whatever it was, and every SetLog
  of the session is merged into the PersonalBest table.
\<close>

definition finish_session ::
  "db \<Rightarrow> user \<Rightarrow> nat \<Rightarrow> http_error + db \<times> (workout_session \<times> set_log list)" where
  "finish_session d u session_id =
     (case find (\<lambda>s. sess_id s = session_id) (sessions d) of
        None \<Rightarrow> Inl (HTTPException 404 ''Session not found'')
      | Some sess0 \<Rightarrow>
          (case ensure_owner (sess_owner_id sess0) u of
             Inl e \<Rightarrow> Inl e
           | Inr _ \<Rightarrow>
               let sess = sess0\<lparr>sess_status := ''done''\<rparr>;
                   d1 = d\<lparr>sessions := update_first (\<lambda>s. sess_id s = session_id)
                                          (\<lambda>s. s\<lparr>sess_status := ''done''\<rparr>) (sessions d)\<rparr>;
                   logs = filter (\<lambda>l. log_session_id l = sess_id sess) (set_logs d1);
                   d2 = merge_set_logs d1 (user_id u) sess logs
               in Inr (d2, serialize_session d2 sess)))"

text \<open>\<open>delete_session\<close>: the SetLogs of the session are deleted, then the session.\<close>

definition delete_session :: "db \<Rightarrow> user \<Rightarrow> nat \<Rightarrow> http_error + db \<times> nat" where
  "delete_session d u session_id =
     (case find (\<lambda>s. sess_id s = session_id) (sessions d) of
        None \<Rightarrow> Inl (HTTPException 404 ''Session not found'')
      | Some sess \<Rightarrow>
          (case ensure_owner (sess_owner_id sess) u of
             Inl e \<Rightarrow> Inl e
           | Inr _ \<Rightarrow>
               let logs = filter (\<lambda>l. log_session_id l = session_id) (set_logs d);
                   d1 = fold (\<lambda>set_log d'. d'\<lparr>set_logs := filter (\<lambda>l. log_id l \<noteq> log_id set_log)
                                                          (set_logs d')\<rparr>) logs d;
                   d2 = d1\<lparr>sessions := filter (\<lambda>s. sess_id s \<noteq> sess_id sess) (sessions d1)\<rparr>
               in Inr (d2, session_id)))"

section \<open>Programs (api/main.py)\<close>

text \<open>
  \<open>delete_program\<close>: the rows of each template of the program and the template are
  deleted, then the sessions of the program, then the program. No statement of the
  function deletes a SetLog or a PersonalBest, and the models declare no cascade.
\<close>

definition delete_template_rows :: "workout_template \<Rightarrow> db \<Rightarrow> db" where
  "delete_template_rows tpl d =
     (let rows = filter (\<lambda>r. row_template_id r = tpl_id tpl) (template_exercises d);
          d1 = fold (\<lambda>row d'. d'\<lparr>template_exercises :=
                                   filter (\<lambda>r. row_id r \<noteq> row_id row) (template_exercises d')\<rparr>)
                 rows d
      in d1\<lparr>workout_templates := filter (\<lambda>t. tpl_id t \<noteq> tpl_id tpl) (workout_templates d1)\<rparr>)"

definition delete_program :: "db \<Rightarrow> user \<Rightarrow> nat \<Rightarrow> http_error + db \<times> nat" where
  "delete_program d u program_id =
     (case find (\<lambda>p. pr_id p = program_id) (programs d) of
        None \<Rightarrow> Inl (HTTPException 404 ''Program not found'')
      | Some pr \<Rightarrow>
          (case ensure_owner (pr_owner_id pr) u of
             Inl e \<Rightarrow> Inl e
           | Inr _ \<Rightarrow>
               let templates = filter (\<lambda>t. tpl_program_id t = program_id) (workout_templates d);
                   d1 = fold delete_template_rows templates d;
                   program_sessions = filter (\<lambda>s. sess_program_id s = program_id) (sessions d1);
                   d2 = fold (\<lambda>s d'. d'\<lparr>sessions := filter (\<lambda>s'. sess_id s' \<noteq> sess_id s)
                                                       (sessions d')\<rparr>) program_sessions d1;
                   d3 = d2\<lparr>programs := filter (\<lambda>p. pr_id p \<noteq> pr_id pr) (programs d2)\<rparr>
               in Inr (d3, program_id)))"

text \<open>
  \<open>copy_program_from_public\<close>. The three loops are folds: over the exercises (building
  \<open>new_ex_map\<close>), over the templates, and inside it over the rows of the template.
\<close>

definition copy_exercise :: "user \<Rightarrow> exercise \<Rightarrow> db \<times> (nat \<rightharpoonup> nat) \<Rightarrow> db \<times> (nat \<rightharpoonup> nat)" where
  "copy_exercise u ex st =
     (case st of (d, new_ex_map) \<Rightarrow>
        let new_ex = \<lparr>ex_id = next_id (map ex_id (exercises d)), ex_owner_id = user_id u,
                      ex_name = ex_name ex, ex_muscle_group = ex_muscle_group ex,
                      ex_type = ex_type ex, ex_equipment = ex_equipment ex,
                      ex_notes = ex_notes ex\<rparr>
        in (d\<lparr>exercises := exercises d @ [new_ex]\<rparr>, new_ex_map(ex_id ex \<mapsto> ex_id new_ex)))"

definition copy_row ::
  "(nat \<rightharpoonup> nat) \<Rightarrow> workout_template \<Rightarrow> template_exercise \<Rightarrow>
   db \<times> template_exercise list \<Rightarrow> db \<times> template_exercise list" where
  "copy_row new_ex_map new_tpl row st =
     (case st of (d, new_rows) \<Rightarrow>
        (case new_ex_map (row_exercise_id row) of
           None \<Rightarrow> (d, new_rows)
         | Some mapped_ex_id \<Rightarrow>
             if mapped_ex_id = 0 then (d, new_rows)
             else
               let new_row = \<lparr>row_id = next_id (map row_id (template_exercises d)),
                              row_template_id = tpl_id new_tpl,
                              row_exercise_id = mapped_ex_id,
                              row_planned_sets = row_planned_sets row,
                              row_reps = row_reps row,
                              row_planned_weight = row_planned_weight row,
                              row_rpe = row_rpe row,
                              row_rest = row_rest row,
                              row_comment = row_comment row\<rparr>
               in (d\<lparr>template_exercises := template_exercises d @ [new_row]\<rparr>,
                   new_rows @ [new_row])))"

definition copy_template ::
  "user \<Rightarrow> program \<Rightarrow> (nat \<rightharpoonup> template_exercise list) \<Rightarrow> (nat \<rightharpoonup> nat) \<Rightarrow> workout_template \<Rightarrow>
   db \<times> (workout_template \<times> template_exercise list) list \<Rightarrow>
   db \<times> (workout_template \<times> template_exercise list) list" where
  "copy_template u new_program rows_by_tpl new_ex_map tpl st =
     (case st of (d, new_templates) \<Rightarrow>
        let new_tpl = \<lparr>tpl_id = next_id (map tpl_id (workout_templates d)),
                       tpl_program_id = pr_id new_program, tpl_owner_id = user_id u,
                       tpl_name = tpl_name tpl\<rparr>;
            d1 = d\<lparr>workout_templates := workout_templates d @ [new_tpl]\<rparr>;
            rows = (case rows_by_tpl (tpl_id tpl) of None \<Rightarrow> [] | Some rs \<Rightarrow> rs)
        in (case fold (copy_row new_ex_map new_tpl) rows (d1, []) of
              (d2, new_rows) \<Rightarrow> (d2, new_templates @ [(new_tpl, new_rows)])))"

definition copy_program_from_public ::
  "db \<Rightarrow> user \<Rightarrow> nat \<Rightarrow>
   http_error + db \<times> program \<times> (workout_template \<times> template_exercise list) list" where
  "copy_program_from_public d u program_id =
     (case find (\<lambda>p. pr_id p = program_id) (programs d) of
        None \<Rightarrow> Inl (HTTPException 404 ''Program not found'')
      | Some source \<Rightarrow>
          if pr_owner_id source \<noteq> user_id u \<and> \<not> pr_is_public source
          then Inl (HTTPException 403 ''Program is not public'')
          else
            let templates = filter (\<lambda>t. tpl_program_id t = pr_id source) (workout_templates d);
                rows_of = (\<lambda>tpl. filter (\<lambda>r. row_template_id r = tpl_id tpl)
                                    (template_exercises d));
                rows_by_tpl = fold (\<lambda>tpl m. m(tpl_id tpl \<mapsto> rows_of tpl)) templates Map.empty;
                exercise_ids = map row_exercise_id (concat (map rows_of templates));
                exs = (if exercise_ids \<noteq> []
                       then filter (\<lambda>e. ex_id e \<in> set exercise_ids) (exercises d) else []);
                new_program = \<lparr>pr_id = next_id (map pr_id (programs d)),
                                pr_owner_id = user_id u,
                                pr_name = (if pr_owner_id source \<noteq> user_id u
                                           then pr_name source @ '' (kopia)''
                                           else pr_name source),
                                pr_description = pr_description source,
                                pr_start_date = pr_start_date source,
                                pr_end_date = pr_end_date source,
                                pr_status = pr_status source,
                                pr_version = 1,
                                pr_visibility = ''private'',
                                pr_is_public = False\<rparr>;
                d1 = d\<lparr>programs := programs d @ [new_program]\<rparr>
            in (case fold (copy_exercise u) exs (d1, Map.empty) of
                  (d2, new_ex_map) \<Rightarrow>
                    (case fold (copy_template u new_program rows_by_tpl new_ex_map) templates
                            (d2, []) of
                       (d3, new_templates) \<Rightarrow> Inr (d3, new_program, new_templates))))"

section \<open>Friends (api/main.py)\<close>

definition get_user_by_username :: "db \<Rightarrow> string \<Rightarrow> user option" where
  "get_user_by_username d name = find (\<lambda>x. username x = name) (users d)"

definition friendship_key :: "nat \<Rightarrow> nat \<Rightarrow> nat \<times> nat" where
  "friendship_key a b = (if a < b then (a, b) else (b, a))"

definition friendship_exists :: "db \<Rightarrow> nat \<Rightarrow> nat \<Rightarrow> bool" where
  "friendship_exists d a b =
     (case friendship_key a b of (u1, u2) \<Rightarrow>
        find (\<lambda>f. fs_user_id f = u1 \<and> fs_friend_id f = u2) (friendships d) \<noteq> None)"


text \<open>The \<open>where\<close> clause of the pending-request lookup in \<open>send_friend_request\<close>.\<close>

definition pending_between :: "nat \<Rightarrow> nat \<Rightarrow> friend_request \<Rightarrow> bool" where
  "pending_between a b fr \<longleftrightarrow>
     ((fr_from_user_id fr = a \<and> fr_to_user_id fr = b) \<or>
      (fr_from_user_id fr = b \<and> fr_to_user_id fr = a)) \<and> fr_status fr = ''pending''"

text \<open>
  \<open>send_friend_request\<close>. The response (id, the two usernames, status) is read off the new
  row, which is what is returned here.
\<close>

definition send_friend_request ::
  "db \<Rightarrow> user \<Rightarrow> string \<Rightarrow> http_error + db \<times> friend_request" where
  "send_friend_request d u to_username =
     (case get_user_by_username d to_username of
        None \<Rightarrow> Inl (HTTPException 404 ''Recipient not found'')
      | Some to_user \<Rightarrow>
          if user_id to_user = user_id u
          then Inl (HTTPException 400 ''Cannot send request to yourself'')
          else if friendship_exists d (user_id u) (user_id to_user)
          then Inl (HTTPException 400 ''You are already friends'')
          else if find (pending_between (user_id u) (user_id to_user)) (friend_requests d) \<noteq> None
          then Inl (HTTPException 400 ''Request already pending'')
          else
            let fr = \<lparr>fr_id = next_id (map fr_id (friend_requests d)),
                      fr_from_user_id = user_id u, fr_to_user_id = user_id to_user,
                      fr_status = ''pending''\<rparr>
            in Inr (d\<lparr>friend_requests := friend_requests d @ [fr]\<rparr>, fr))"



section \<open>The file store of the command-line tool (GYM/app.py, server.py)\<close>

text \<open>
  The JSON document is a dict of five lists of dicts; templates hold their rows and
  sessions hold their set logs. Ids are the strings \<open>gen_id\<close> returns.
  \<open>gen_id\<close> reads a random source: \<open>gen k\<close> is what its \<open>k\<close>-th call of a run
  returns, and every function that calls it takes the number of calls made so far and
  returns that number updated.
\<close>

record file_exercise =
  fx_id :: string
  fx_name :: string
  fx_muscle_group :: string
  fx_type :: string
  fx_equipment :: string
  fx_notes :: string

record file_program =
  fp_id :: string
  fp_name :: string
  fp_description :: string
  fp_start_date :: string
  fp_end_date :: string
  fp_status :: string
  fp_version :: int

record file_row =
  frow_id :: string
  frow_exercise_id :: string
  frow_planned_sets :: string
  frow_reps :: string
  frow_planned_weight :: string
  frow_rpe :: string
  frow_rest :: string
  frow_comment :: string

record file_template =
  ft_id :: string
  ft_program_id :: string
  ft_name :: string
  ft_exercises :: "file_row list"

record file_set_log =
  fl_id :: string
  fl_exercise_id :: string
  fl_set_number :: int
  fl_weight :: pyfloat
  fl_reps :: int
  fl_rpe :: pyfloat
  fl_comment :: string

record file_session =
  fsn_id :: string
  fsn_template_id :: string
  fsn_program_id :: string
  fsn_template_name :: string
  fsn_program_name :: string
  fsn_date :: string
  fsn_set_logs :: "file_set_log list"
  fsn_status :: string

record file_pb =
  fb_id :: string
  fb_exercise_id :: string
  fb_kind :: string
  fb_label :: string
  fb_value :: pyfloat
  fb_reps :: int
  fb_date :: string
  fb_set_log_id :: string

record file_db =
  f_exercises :: "file_exercise list"
  f_programs :: "file_program list"
  f_workout_templates :: "file_template list"
  f_sessions :: "file_session list"
  f_personal_bests :: "file_pb list"

text \<open>\<open>raise SystemExit(message)\<close>.\<close>

datatype cli_error = SystemExit string

definition require_id :: "('a \<Rightarrow> string) \<Rightarrow> 'a list \<Rightarrow> string \<Rightarrow> string \<Rightarrow> cli_error + 'a" where
  "require_id id_of items item_id label =
     (case find (\<lambda>item. id_of item = item_id) items of
        Some item \<Rightarrow> Inr item
      | None \<Rightarrow> Inl (SystemExit (label @ '' with id '' @ [CHR 0x27] @ item_id @ [CHR 0x27] @
                                  '' not found'')))"

subsection \<open>copy_program\<close>

record copy_args =
  a_program_id :: string
  a_name :: "string option"
  a_version :: int
  a_start_date :: string
  a_end_date :: string

text \<open>\<open>[dict(row, id=gen_id()) for row in tpl["exercises"]]\<close>, with \<open>n\<close> calls made before.\<close>

definition copy_rows :: "(nat \<Rightarrow> string) \<Rightarrow> nat \<Rightarrow> file_row list \<Rightarrow> file_row list" where
  "copy_rows gen n rows = map (\<lambda>(k, row). row\<lparr>frow_id := gen (n + k)\<rparr>) (enumerate 0 rows)"

text \<open>
  The \<open>for\<close> loop over \<open>db["workout_templates"]\<close> appends to the list it iterates:
  the iterator is an index \<open>i\<close> compared with the current length at every step, so the
  loop also visits what it appended, and returns only if that ends. \<open>None\<close> is a loop that
  does not return.
\<close>

partial_function (option) copy_templates ::
  "(nat \<Rightarrow> string) \<Rightarrow> string \<Rightarrow> string \<Rightarrow> nat \<Rightarrow> nat \<Rightarrow> file_template list \<Rightarrow>
   (nat \<times> file_template list) option" where
  "copy_templates gen program_id new_program_id i n tpls =
     (if i < length tpls then
        (if ft_program_id (tpls ! i) \<noteq> program_id
         then copy_templates gen program_id new_program_id (Suc i) n tpls
         else copy_templates gen program_id new_program_id (Suc i)
                (Suc n + length (ft_exercises (tpls ! i)))
                (tpls @ [\<lparr>ft_id = gen n, ft_program_id = new_program_id,
                           ft_name = ft_name (tpls ! i),
                           ft_exercises = copy_rows gen (Suc n) (ft_exercises (tpls ! i))\<rparr>]))
      else Some (n, tpls))"

definition copy_program ::
  "(nat \<Rightarrow> string) \<Rightarrow> nat \<Rightarrow> file_db \<Rightarrow> copy_args \<Rightarrow> (cli_error + nat \<times> file_db) option" where
  "copy_program gen n d args =
     (case require_id fp_id (f_programs d) (a_program_id args) ''Program'' of
        Inl e \<Rightarrow> Some (Inl e)
      | Inr program \<Rightarrow>
          let new_program = program\<lparr>fp_id := gen n,
                                     fp_name := (case a_name args of
                                                   None \<Rightarrow> fp_name program @ '' (copy)''
                                                 | Some nm \<Rightarrow> if nm = [] then fp_name program @ '' (copy)''
                                                              else nm),
                                     fp_version := a_version args,
                                     fp_status := ''active'',
                                     fp_start_date := a_start_date args,
                                     fp_end_date := a_end_date args\<rparr>
          in (case copy_templates gen (fp_id program) (fp_id new_program) 0 (Suc n)
                     (f_workout_templates d) of
                None \<Rightarrow> None
              | Some (n', tpls) \<Rightarrow>
                  Some (Inr (n', d\<lparr>f_programs := f_programs d @ [new_program],
                                   f_workout_templates := tpls\<rparr>))))"

subsection \<open>Sessions and personal bests of the file store\<close>

text \<open>
  \<open>update_pb_entry\<close>: the loop stops at the first record of the exercise and kind that
  has the same rep count, or any rep count when the kind is not \<open>max_weight_reps\<close>.
  The record found is kept when \<open>value <= existing["value"]\<close> and overwritten otherwise.
\<close>

definition pb_entry_matches :: "string \<Rightarrow> string \<Rightarrow> int \<Rightarrow> file_pb \<Rightarrow> bool" where
  "pb_entry_matches exercise_id kind reps pb \<longleftrightarrow>
     (fb_exercise_id pb = exercise_id \<and> fb_kind pb = kind \<and> fb_reps pb = reps) \<or>
     (fb_exercise_id pb = exercise_id \<and> fb_kind pb = kind \<and> kind \<noteq> ''max_weight_reps'')"

definition update_pb_entry ::
  "(nat \<Rightarrow> string) \<Rightarrow> string \<Rightarrow> string \<Rightarrow> string \<Rightarrow> pyfloat \<Rightarrow> int \<Rightarrow> string \<Rightarrow> string \<Rightarrow>
   nat \<times> file_pb list \<Rightarrow> nat \<times> file_pb list" where
  "update_pb_entry gen exercise_id kind label val reps date set_log_id st =
     (case st of (n, pbs) \<Rightarrow>
        (case find (pb_entry_matches exercise_id kind reps) pbs of
           Some existing \<Rightarrow>
             if float_le val (fb_value existing) then (n, pbs)
             else (n, update_first (pb_entry_matches exercise_id kind reps)
                        (\<lambda>pb. pb\<lparr>fb_value := val, fb_reps := reps, fb_date := date,
                                  fb_set_log_id := set_log_id, fb_label := label\<rparr>) pbs)
         | None \<Rightarrow>
             (Suc n, pbs @ [\<lparr>fb_id = gen n, fb_exercise_id = exercise_id, fb_kind = kind,
                              fb_label = label, fb_value = val, fb_reps = reps, fb_date = date,
                              fb_set_log_id = set_log_id\<rparr>])))"

text \<open>\<open>estimate_one_rm\<close> of app.py, on the weight as the file holds it.\<close>

definition cli_estimate_one_rm :: "pyfloat \<Rightarrow> int \<Rightarrow> pyfloat" where
  "cli_estimate_one_rm weight reps = float_mul weight (Num (1 + real_of_int reps / 30))"

definition cli_update_set ::
  "(nat \<Rightarrow> string) \<Rightarrow> string \<Rightarrow> file_set_log \<Rightarrow> nat \<times> file_pb list \<Rightarrow> nat \<times> file_pb list" where
  "cli_update_set gen date set_log st =
     (let weight = fl_weight set_log;
          reps = fl_reps set_log;
          est_1rm = cli_estimate_one_rm weight reps;
          volume = float_mul weight (Num (real_of_int reps));
          exercise_id = fl_exercise_id set_log;
          set_id = fl_id set_log;
          st1 = update_pb_entry gen exercise_id ''est_1rm'' ''1RM (est)'' est_1rm reps date set_id st;
          st2 = update_pb_entry gen exercise_id ''max_weight_reps''
                  (''Max weight for '' @ str_of_int reps @ '' reps'') weight reps date set_id st1
      in update_pb_entry gen exercise_id ''max_volume'' ''Max volume'' volume reps date set_id st2)"

definition cli_update_personal_bests ::
  "(nat \<Rightarrow> string) \<Rightarrow> nat \<Rightarrow> file_db \<Rightarrow> file_session \<Rightarrow> nat \<times> file_db" where
  "cli_update_personal_bests gen n d session =
     (case fold (cli_update_set gen (fsn_date session)) (fsn_set_logs session)
             (n, f_personal_bests d) of
        (n', pbs) \<Rightarrow> (n', d\<lparr>f_personal_bests := pbs\<rparr>))"

text \<open>\<open>finish_session\<close> of app.py returns at once when the session is already done.\<close>

definition cli_finish_session ::
  "(nat \<Rightarrow> string) \<Rightarrow> nat \<Rightarrow> file_db \<Rightarrow> string \<Rightarrow> cli_error + nat \<times> file_db" where
  "cli_finish_session gen n d session_id =
     (case require_id fsn_id (f_sessions d) session_id ''Session'' of
        Inl e \<Rightarrow> Inl e
      | Inr session0 \<Rightarrow>
          if fsn_status session0 = ''done'' then Inr (n, d)
          else
            let session = session0\<lparr>fsn_status := ''done''\<rparr>;
                d1 = d\<lparr>f_sessions := update_first (\<lambda>s. fsn_id s = session_id)
                                         (\<lambda>s. s\<lparr>fsn_status := ''done''\<rparr>) (f_sessions d)\<rparr>
            in Inr (cli_update_personal_bests gen n d1 session))"

record log_args =
  la_session_id :: string
  la_exercise_id :: string
  la_set_number :: int
  la_weight :: pyfloat
  la_reps :: int
  la_rpe :: pyfloat
  la_comment :: string

definition cli_log_set ::
  "(nat \<Rightarrow> string) \<Rightarrow> nat \<Rightarrow> file_db \<Rightarrow> log_args \<Rightarrow> cli_error + nat \<times> file_db" where
  "cli_log_set gen n d args =
     (case require_id fsn_id (f_sessions d) (la_session_id args) ''Session'' of
        Inl e \<Rightarrow> Inl e
      | Inr session \<Rightarrow>
          (case require_id fx_id (f_exercises d) (la_exercise_id args) ''Exercise'' of
             Inl e \<Rightarrow> Inl e
           | Inr _ \<Rightarrow>
               let log_entry = \<lparr>fl_id = gen n, fl_exercise_id = la_exercise_id args,
                                 fl_set_number = la_set_number args, fl_weight = la_weight args,
                                 fl_reps = la_reps args, fl_rpe = la_rpe args,
                                 fl_comment = la_comment args\<rparr>
               in Inr (Suc n,
                       d\<lparr>f_sessions := update_first (\<lambda>s. fsn_id s = la_session_id args)
                                          (\<lambda>s. s\<lparr>fsn_set_logs := fsn_set_logs s @ [log_entry]\<rparr>)
                                          (f_sessions d)\<rparr>)))"

text \<open>
  The \<open>/api/programs/delete\<close> branch of \<open>handle_api_post\<close> (server.py): the program and
  its templates (with the rows they hold) are filtered out; sessions are not read.
\<close>

definition server_delete_program :: "file_db \<Rightarrow> string option \<Rightarrow> (nat \<times> string) + file_db" where
  "server_delete_program d body_id =
     (case body_id of
        None \<Rightarrow> Inl (400, ''Missing id'')
      | Some pr_id' \<Rightarrow>
          if pr_id' = [] then Inl (400, ''Missing id'')
          else Inr (d\<lparr>f_programs := filter (\<lambda>p. fp_id p \<noteq> pr_id') (f_programs d),
                       f_workout_templates := filter (\<lambda>t. ft_program_id t \<noteq> pr_id')
                                                (f_workout_templates d)\<rparr>))"

section \<open>Predicates used in the proofs\<close>

text \<open>
  A candidate is covered when the lookup for its key finds a record whose value is at least
  the candidate's.
\<close>

definition covered :: "nat \<Rightarrow> set_log \<Rightarrow> string \<times> string \<times> real \<Rightarrow> personal_best list \<Rightarrow> bool" where
  "covered ow l entry pbs \<longleftrightarrow>
     (case entry of (kind, label, val) \<Rightarrow>
        \<exists>stored. find (pb_query ow (log_exercise_id l) kind (log_reps l)) pbs = Some stored \<and>
                 val \<le> pb_value stored)"

text \<open>
  What the loop of \<open>copy_program\<close> appends for a list of source templates, and the
  number of \<open>gen_id\<close> calls made after it, by recursion over the sources.
\<close>

fun copies_of :: "(nat \<Rightarrow> string) \<Rightarrow> string \<Rightarrow> nat \<Rightarrow> file_template list \<Rightarrow> file_template list" where
  "copies_of gen new_pid n [] = []"
| "copies_of gen new_pid n (t # ts) =
     \<lparr>ft_id = gen n, ft_program_id = new_pid, ft_name = ft_name t,
      ft_exercises = copy_rows gen (Suc n) (ft_exercises t)\<rparr>
     # copies_of gen new_pid (Suc n + length (ft_exercises t)) ts"

fun counter_after :: "nat \<Rightarrow> file_template list \<Rightarrow> nat" where
  "counter_after n [] = n"
| "counter_after n (t # ts) = counter_after (Suc n + length (ft_exercises t)) ts"

text \<open>
  The TemplateRows the first loop of \<open>copy_program_from_public\<close> collects: for every
  template of the program, in order, the rows of that template.
\<close>

definition source_rows :: "db \<Rightarrow> nat \<Rightarrow> template_exercise list" where
  "source_rows d program_id =
     concat (map (\<lambda>tpl. filter (\<lambda>r. row_template_id r = tpl_id tpl) (template_exercises d))
               (filter (\<lambda>t. tpl_program_id t = program_id) (workout_templates d)))"

section \<open>Example data\<close>

definition demo_session :: workout_session where
  "demo_session = \<lparr>sess_id = 1, sess_owner_id = 1, sess_template_id = 1, sess_program_id = 1,
                    sess_template_name = ''Push'', sess_program_name = ''Base'',
                    sess_date = ''2024-05-02'', sess_status = ''in_progress''\<rparr>"

definition demo_log :: "nat \<Rightarrow> real \<Rightarrow> int \<Rightarrow> set_log" where
  "demo_log i w r = \<lparr>log_id = i, log_session_id = 1, log_exercise_id = 7, log_set_number = 1,
                     log_weight = w, log_reps = r, log_rpe = 8, log_comment = []\<rparr>"

definition empty_db :: db where
  "empty_db = \<lparr>users = [], exercises = [], programs = [], workout_templates = [],
                template_exercises = [], sessions = [], set_logs = [], personal_bests = [],
                friend_requests = [], friendships = []\<rparr>"

definition demo_user :: user where
  "demo_user = \<lparr>user_id = 1, email = ''anna@example.org'', username = ''anna'',
                 password_hash = ''x'', display_name = ''Anna''\<rparr>"

definition demo_payload :: "real \<Rightarrow> int \<Rightarrow> set_log_payload" where
  "demo_payload w r = \<lparr>p_exercise_id = 7, p_set_number = 1, p_weight = Num w, p_reps = r,
                         p_rpe = Num 8, p_comment = []\<rparr>"

text \<open>A session in progress with one logged set, and no personal best yet.\<close>

definition open_db :: db where
  "open_db = empty_db\<lparr>sessions := [demo_session], set_logs := [demo_log 1 100 5]\<rparr>"

text \<open>
  The store after \<open>finish_session\<close> on \<open>open_db\<close> and one more \<open>log_set\<close>: the
  session is done, holds a second set, and the personal bests are those of the first set.
\<close>

definition done_db :: db where
  "done_db = empty_db
     \<lparr>sessions := [demo_session\<lparr>sess_status := ''done''\<rparr>],
      set_logs := [demo_log 1 100 5, demo_log 2 120 5],
      personal_bests :=
        [\<lparr>pb_id = 1, pb_owner_id = 1, pb_exercise_id = 7, pb_kind = ''est_1rm'',
          pb_label = ''1RM (est)'', pb_value = 350 / 3, pb_reps = 5,
          pb_date = ''2024-05-02'', pb_set_log_id = 1, pb_is_public = False\<rparr>,
         \<lparr>pb_id = 2, pb_owner_id = 1, pb_exercise_id = 7, pb_kind = ''max_weight_reps'',
          pb_label = ''Max weight for 5 reps'', pb_value = 100, pb_reps = 5,
          pb_date = ''2024-05-02'', pb_set_log_id = 1, pb_is_public = False\<rparr>,
         \<lparr>pb_id = 3, pb_owner_id = 1, pb_exercise_id = 7, pb_kind = ''max_volume'',
          pb_label = ''Max volume'', pb_value = 500, pb_reps = 5,
          pb_date = ''2024-05-02'', pb_set_log_id = 1, pb_is_public = False\<rparr>]\<rparr>"

definition prog_db :: db where
  "prog_db = done_db
     \<lparr>programs := [\<lparr>pr_id = 1, pr_owner_id = 1, pr_name = ''Base'', pr_description = [],
                     pr_start_date = [], pr_end_date = [], pr_status = ''active'',
                     pr_version = 1, pr_visibility = ''private'', pr_is_public = False\<rparr>],
      workout_templates := [\<lparr>tpl_id = 1, tpl_program_id = 1, tpl_owner_id = 1,
                              tpl_name = ''Push''\<rparr>],
      template_exercises := [\<lparr>row_id = 1, row_template_id = 1, row_exercise_id = 7,
                               row_planned_sets = ''4'', row_reps = ''6-8'',
                               row_planned_weight = ''70kg'', row_rpe = ''7'',
                               row_rest = ''2m'', row_comment = []\<rparr>]\<rparr>"

definition demo_gen :: "nat \<Rightarrow> string" where
  "demo_gen k = ''id'' @ str_of_nat k"

definition file_log :: "string \<Rightarrow> real \<Rightarrow> int \<Rightarrow> file_set_log" where
  "file_log i w r = \<lparr>fl_id = i, fl_exercise_id = ''e7'', fl_set_number = 1, fl_weight = Num w,
                     fl_reps = r, fl_rpe = Num 8, fl_comment = []\<rparr>"

text \<open>A set whose weight is NaN (\<open>--weight nan\<close> on the command line).\<close>

definition file_log_nan :: "string \<Rightarrow> int \<Rightarrow> file_set_log" where
  "file_log_nan i r = \<lparr>fl_id = i, fl_exercise_id = ''e7'', fl_set_number = 2, fl_weight = NaN,
                       fl_reps = r, fl_rpe = Num 8, fl_comment = []\<rparr>"

definition file_session0 :: file_session where
  "file_session0 = \<lparr>fsn_id = ''s1'', fsn_template_id = ''t1'', fsn_program_id = ''p1'',
                     fsn_template_name = ''Push'', fsn_program_name = ''Base'',
                     fsn_date = ''2024-05-02'',
                     fsn_set_logs = [file_log ''l1'' 100 5, file_log ''l2'' 100 8],
                     fsn_status = ''in_progress''\<rparr>"

definition file_demo_db :: file_db where
  "file_demo_db =
     \<lparr>f_exercises = [\<lparr>fx_id = ''e7'', fx_name = ''Bench'', fx_muscle_group = ''Chest'',
                       fx_type = ''strength'', fx_equipment = ''barbell'', fx_notes = []\<rparr>],
      f_programs = [\<lparr>fp_id = ''p1'', fp_name = ''Base'', fp_description = ''three days'',
                      fp_start_date = ''2024-01-01'', fp_end_date = [], fp_status = ''archived'',
                      fp_version = 1\<rparr>],
      f_workout_templates =
        [\<lparr>ft_id = ''t1'', ft_program_id = ''p1'', ft_name = ''Push'',
          ft_exercises = [\<lparr>frow_id = ''r1'', frow_exercise_id = ''e7'', frow_planned_sets = ''4'',
                           frow_reps = ''6-8'', frow_planned_weight = ''70kg'', frow_rpe = ''7'',
                           frow_rest = ''2m'', frow_comment = []\<rparr>]\<rparr>],
      f_sessions = [file_session0],
      f_personal_bests = []\<rparr>"

text \<open>The file store with a session of three sets of 5 reps: 100, NaN and 50.\<close>

definition nan_db :: file_db where
  "nan_db = file_demo_db
     \<lparr>f_sessions := [file_session0\<lparr>fsn_set_logs := [file_log ''l1'' 100 5, file_log_nan ''l2'' 5,
                                                      file_log ''l3'' 50 5]\<rparr>]\<rparr>"

definition demo_log_args :: log_args where
  "demo_log_args = \<lparr>la_session_id = ''s1'', la_exercise_id = ''e7'', la_set_number = 3,
                     la_weight = Num 110, la_reps = 5, la_rpe = Num 8, la_comment = []\<rparr>"

definition demo_friend :: user where
  "demo_friend = \<lparr>user_id = 2, email = ''bert@example.org'', username = ''bert'',
                   password_hash = ''y'', display_name = ''Bert''\<rparr>"

definition friends_db :: db where
  "friends_db = empty_db\<lparr>users := [demo_user, demo_friend]\<rparr>"

text \<open>The store after anna has sent a request to bert.\<close>

definition pending_db :: db where
  "pending_db = friends_db\<lparr>friend_requests :=
      [\<lparr>fr_id = 1, fr_from_user_id = 1, fr_to_user_id = 2, fr_status = ''pending''\<rparr>]\<rparr>"

text \<open>The store after bert has accepted it.\<close>

definition accepted_db :: db where
  "accepted_db = friends_db
     \<lparr>friend_requests :=
        [\<lparr>fr_id = 1, fr_from_user_id = 1, fr_to_user_id = 2, fr_status = ''accepted''\<rparr>],
      friendships := [\<lparr>fs_id = 1, fs_user_id = 1, fs_friend_id = 2\<rparr>]\<rparr>"

definition demo_copy_args :: copy_args where
  "demo_copy_args = \<lparr>a_program_id = ''p1'', a_name = None, a_version = 2,
                      a_start_date = ''2024-06-01'', a_end_date = []\<rparr>"

definition demo_program :: file_program where
  "demo_program = \<lparr>fp_id = ''p1'', fp_name = ''Base'', fp_description = ''three days'',
                    fp_start_date = ''2024-01-01'', fp_end_date = [], fp_status = ''archived'',
                    fp_version = 1\<rparr>"

definition fork_db :: db where
  "fork_db = empty_db
     \<lparr>users := [demo_user, demo_friend],
      exercises := [\<lparr>ex_id = 7, ex_owner_id = 2, ex_name = ''Bench'', ex_muscle_group = ''Chest'',
                      ex_type = ''strength'', ex_equipment = ''barbell'', ex_notes = []\<rparr>,
                    \<lparr>ex_id = 8, ex_owner_id = 2, ex_name = ''Squat'', ex_muscle_group = ''Legs'',
                      ex_type = ''strength'', ex_equipment = ''barbell'', ex_notes = []\<rparr>],
      programs := [\<lparr>pr_id = 1, pr_owner_id = 2, pr_name = ''Base'', pr_description = [],
                     pr_start_date = [], pr_end_date = [], pr_status = ''archived'',
                     pr_version = 3, pr_visibility = ''public'', pr_is_public = True\<rparr>],
      workout_templates := [\<lparr>tpl_id = 1, tpl_program_id = 1, tpl_owner_id = 2,
                              tpl_name = ''Push''\<rparr>],
      template_exercises :=
        [\<lparr>row_id = 1, row_template_id = 1, row_exercise_id = 7, row_planned_sets = ''4'',
          row_reps = ''6-8'', row_planned_weight = ''70kg'', row_rpe = ''7'', row_rest = ''2m'',
          row_comment = []\<rparr>,
         \<lparr>row_id = 2, row_template_id = 1, row_exercise_id = 7, row_planned_sets = ''2'',
          row_reps = ''12'', row_planned_weight = ''50kg'', row_rpe = ''8'', row_rest = ''1m'',
          row_comment = ''back-off''\<rparr>,
         \<lparr>row_id = 3, row_template_id = 1, row_exercise_id = 8, row_planned_sets = ''3'',
          row_reps = ''5'', row_planned_weight = ''90kg'', row_rpe = ''8'', row_rest = ''3m'',
          row_comment = []\<rparr>]\<rparr>"

text \<open>A \<open>gen_id\<close> that returns the same text at every call.\<close>

definition stuck_gen :: "string \<Rightarrow> nat \<Rightarrow> string" where
  "stuck_gen s k = s"

text \<open>The file store with a second program, \<open>p2\<close>, that has no template.\<close>

definition two_programs_db :: file_db where
  "two_programs_db = file_demo_db
     \<lparr>f_programs := f_programs file_demo_db @
        [\<lparr>fp_id = ''p2'', fp_name = ''Other'', fp_description = [], fp_start_date = [],
          fp_end_date = [], fp_status = ''active'', fp_version = 1\<rparr>]\<rparr>"
section \<open>Lists and the store primitives\<close>

lemma find_update_first:
  assumes "\<And>x. x \<in> set xs \<Longrightarrow> P x \<Longrightarrow> Q (f x) = Q x" and "find Q xs = Some a"
  shows "find Q (update_first P f xs) = Some a \<or>
         (find P xs = Some a \<and> find Q (update_first P f xs) = Some (f a))"
  using assms by (induction xs) (auto split: if_splits)

lemma find_append_Some: "find Q xs = Some a \<Longrightarrow> find Q (xs @ ys) = Some a"
  by (induction xs) auto

lemma length_update_first [simp]: "length (update_first P f xs) = length xs"
  by (induction xs) auto

lemma nth_update_first:
  "i < length xs \<Longrightarrow>
   update_first P f xs ! i = xs ! i \<or>
   (find P xs = Some (xs ! i) \<and> update_first P f xs ! i = f (xs ! i))"
proof (induction xs arbitrary: i)
  case Nil
  then show ?case by simp
next
  case (Cons x xs)
  then show ?case by (cases i) auto
qed

lemma find_update_first_same:
  "find P xs = Some a \<Longrightarrow> P (f a) \<Longrightarrow> find P (update_first P f xs) = Some (f a)"
  by (induction xs) (auto split: if_splits)

lemma find_append_None: "find Q xs = None \<Longrightarrow> find Q (xs @ ys) = find Q ys"
  by (induction xs) (auto split: if_splits)

lemma update_first_idem:
  "(\<And>x. P x \<Longrightarrow> P (f x) \<and> f (f x) = f x) \<Longrightarrow>
   update_first P f (update_first P f xs) = update_first P f xs"
  by (induction xs) auto

lemma fold_max_ge: "a \<le> fold max xs (a::nat) \<and> (\<forall>x\<in>set xs. x \<le> fold max xs a)"
proof (induction xs arbitrary: a)
  case Nil
  then show ?case by simp
next
  case (Cons y xs)
  have "max y a \<le> fold max xs (max y a)" and "\<forall>x\<in>set xs. x \<le> fold max xs (max y a)"
    using Cons.IH[of "max y a"] by simp_all
  then show ?case by auto
qed

lemma next_id_fresh: "x \<in> set ids \<Longrightarrow> x < next_id ids"
  using fold_max_ge[of 0 ids] by (auto simp: next_id_def less_Suc_eq_le)

lemma next_id_pos: "0 < next_id ids"
  by (simp add: next_id_def)

subsection \<open>Unfolding the definitions on concrete data\<close>

lemmas demo_defs = demo_user_def demo_payload_def open_db_def done_db_def empty_db_def
  demo_session_def demo_log_def

lemmas pb_defs = merge_set_logs_def update_personal_bests_def pb_merge_def pb_entries_def
  pb_query_def estimate_one_rm_def str_of_int_def digit_char_def next_id_def Let_def eval_nat_numeral

lemmas file_defs = demo_gen_def file_log_def file_session0_def file_demo_db_def
lemmas cli_pb_defs = cli_update_personal_bests_def cli_update_set_def update_pb_entry_def
   pb_entry_matches_def cli_estimate_one_rm_def float_mul_def float_le_def str_of_int_def
   digit_char_def Let_def

section \<open>Personal bests of the API never decrease\<close>

lemma pb_query_update:
  "pb_query o' e' k' r' x \<Longrightarrow>
   pb_query o1 e k r (x\<lparr>pb_value := v, pb_reps := r', pb_date := dt, pb_set_log_id := sl, pb_label := lb\<rparr>)
   = pb_query o1 e k r x"
  by (auto simp: pb_query_def)

lemma pb_merge_mono:
  assumes "find (pb_query o1 e k r) pbs = Some old"
  shows "\<exists>new. find (pb_query o1 e k r) (pb_merge ow s l entry pbs) = Some new \<and> pb_value old \<le> pb_value new"
proof (cases entry)
  case (fields kind label val)
  let ?P = "pb_query ow (log_exercise_id l) kind (log_reps l)"
  let ?f = "\<lambda>pb. pb\<lparr>pb_value := val, pb_reps := log_reps l,
                              pb_date := sess_date s, pb_set_log_id := log_id l,
                              pb_label := label\<rparr>"
  show ?thesis
  proof (cases "find ?P pbs")
    case None
    then show ?thesis using assms fields by (simp add: pb_merge_def find_append_Some)
  next
    case (Some existing)
    show ?thesis
    proof (cases "val > pb_value existing")
      case False
      then show ?thesis using assms fields Some by (simp add: pb_merge_def)
    next
      case True
      have "find (pb_query o1 e k r) (update_first ?P ?f pbs) = Some old \<or>
         (find ?P pbs = Some old \<and> find (pb_query o1 e k r) (update_first ?P ?f pbs) = Some (?f old))"
        by (rule find_update_first[OF _ assms]) (simp add: pb_query_update)
      then show ?thesis using True fields Some by (auto simp: pb_merge_def)
    qed
  qed
qed

lemma pb_merges_mono:
  "find (pb_query o1 e k r) pbs = Some old \<Longrightarrow>
   \<exists>new. find (pb_query o1 e k r) (fold (pb_merge ow s l) entries pbs) = Some new \<and> pb_value old \<le> pb_value new"
proof (induction entries arbitrary: pbs old)
  case Nil
  then show ?case by simp
next
  case (Cons en entries)
  from pb_merge_mono[OF Cons.prems, of ow s l en]
  obtain mid where m: "find (pb_query o1 e k r) (pb_merge ow s l en pbs) = Some mid" "pb_value old \<le> pb_value mid"
    by blast
  from Cons.IH[OF m(1)] m(2) show ?case by fastforce
qed

lemma steps_mono:
  "find (pb_query o1 e k r) (personal_bests d) = Some old \<Longrightarrow>
   \<exists>new. find (pb_query o1 e k r)
           (personal_bests (fold (\<lambda>(ow, s, l) d'. update_personal_bests d' ow s l) steps d)) = Some new
         \<and> pb_value old \<le> pb_value new"
proof (induction steps arbitrary: d old)
  case Nil
  then show ?case by simp
next
  case (Cons st steps)
  obtain ow s l where st: "st = (ow, s, l)" by (cases st) auto
  from pb_merges_mono[OF Cons.prems, of ow s l "pb_entries l"]
  obtain mid where m: "find (pb_query o1 e k r) (personal_bests (update_personal_bests d ow s l)) = Some mid"
      "pb_value old \<le> pb_value mid"
    by (auto simp: update_personal_bests_def)
  from Cons.IH[OF m(1)] m(2) show ?case by (fastforce simp: st)
qed

lemma pb_merge_tie:
  "find (pb_query ow (log_exercise_id l) kind (log_reps l)) pbs = Some existing \<Longrightarrow>
   val \<le> pb_value existing \<Longrightarrow> pb_merge ow s l (kind, label, val) pbs = pbs"
  by (simp add: pb_merge_def)

lemma pb_merge_changed:
  assumes "i < length pbs" "pb_merge ow s l (kind, label, val) pbs ! i \<noteq> pbs ! i"
  shows "pb_value (pbs ! i) < val \<and>
         pb_merge ow s l (kind, label, val) pbs ! i =
           (pbs ! i)\<lparr>pb_value := val, pb_reps := log_reps l, pb_date := sess_date s,
                     pb_set_log_id := log_id l, pb_label := label\<rparr>"
proof -
  let ?P = "pb_query ow (log_exercise_id l) kind (log_reps l)"
  let ?f = "\<lambda>pb. pb\<lparr>pb_value := val, pb_reps := log_reps l,
                              pb_date := sess_date s, pb_set_log_id := log_id l,
                              pb_label := label\<rparr>"
  show ?thesis
  proof (cases "find ?P pbs")
    case None
    then show ?thesis using assms by (simp add: pb_merge_def nth_append)
  next
    case (Some existing)
    show ?thesis
    proof (cases "val > pb_value existing")
      case False
      then show ?thesis using assms Some by (simp add: pb_merge_def)
    next
      case True
      then have eq: "pb_merge ow s l (kind, label, val) pbs = update_first ?P ?f pbs"
        using Some by (simp add: pb_merge_def)
      from nth_update_first[OF assms(1), of ?P ?f] assms(2) eq
      have "find ?P pbs = Some (pbs ! i)" "update_first ?P ?f pbs ! i = ?f (pbs ! i)" by auto
      then show ?thesis using Some True eq by simp
    qed
  qed
qed


lemma pb_merge_rows:
  "length pbs \<le> length (pb_merge ow s l entry pbs) \<and>
   (\<forall>i<length pbs.
      pb_value (pbs ! i) \<le> pb_value (pb_merge ow s l entry pbs ! i) \<and>
      pb_owner_id (pb_merge ow s l entry pbs ! i) = pb_owner_id (pbs ! i) \<and>
      pb_exercise_id (pb_merge ow s l entry pbs ! i) = pb_exercise_id (pbs ! i) \<and>
      pb_kind (pb_merge ow s l entry pbs ! i) = pb_kind (pbs ! i))"
proof (cases entry)
  case (fields kind label val)
  have len: "length pbs \<le> length (pb_merge ow s l entry pbs)"
    by (simp add: fields pb_merge_def split: option.splits)
  have row: "pb_value (pbs ! i) \<le> pb_value (pb_merge ow s l entry pbs ! i) \<and>
      pb_owner_id (pb_merge ow s l entry pbs ! i) = pb_owner_id (pbs ! i) \<and>
      pb_exercise_id (pb_merge ow s l entry pbs ! i) = pb_exercise_id (pbs ! i) \<and>
      pb_kind (pb_merge ow s l entry pbs ! i) = pb_kind (pbs ! i)" if i: "i < length pbs" for i
  proof (cases "pb_merge ow s l entry pbs ! i = pbs ! i")
    case True
    then show ?thesis by simp
  next
    case False
    from pb_merge_changed[OF i False[unfolded fields]]
    have "pb_value (pbs ! i) < val"
      and "pb_merge ow s l entry pbs ! i =
           (pbs ! i)\<lparr>pb_value := val, pb_reps := log_reps l, pb_date := sess_date s,
                     pb_set_log_id := log_id l, pb_label := label\<rparr>"
      by (simp_all add: fields)
    then show ?thesis by simp
  qed
  from len row show ?thesis by blast
qed

lemma pb_merges_rows:
  "length pbs \<le> length (fold (pb_merge ow s l) entries pbs) \<and>
   (\<forall>i<length pbs.
      pb_value (pbs ! i) \<le> pb_value (fold (pb_merge ow s l) entries pbs ! i) \<and>
      pb_owner_id (fold (pb_merge ow s l) entries pbs ! i) = pb_owner_id (pbs ! i) \<and>
      pb_exercise_id (fold (pb_merge ow s l) entries pbs ! i) = pb_exercise_id (pbs ! i) \<and>
      pb_kind (fold (pb_merge ow s l) entries pbs ! i) = pb_kind (pbs ! i))"
proof (induction entries arbitrary: pbs)
  case Nil
  then show ?case by simp
next
  case (Cons en entries)
  note a = pb_merge_rows[of pbs ow s l en]
  note b = Cons.IH[of "pb_merge ow s l en pbs"]
  show ?case
  proof (intro conjI allI impI)
    show "length pbs \<le> length (fold (pb_merge ow s l) (en # entries) pbs)"
      using a b by simp
  next
    fix i assume i: "i < length pbs"
    then have i': "i < length (pb_merge ow s l en pbs)" using a by simp
    from a i have a': "pb_value (pbs ! i) \<le> pb_value (pb_merge ow s l en pbs ! i)"
      "pb_owner_id (pb_merge ow s l en pbs ! i) = pb_owner_id (pbs ! i)"
      "pb_exercise_id (pb_merge ow s l en pbs ! i) = pb_exercise_id (pbs ! i)"
      "pb_kind (pb_merge ow s l en pbs ! i) = pb_kind (pbs ! i)" by simp_all
    from b i' have b': "pb_value (pb_merge ow s l en pbs ! i)
         \<le> pb_value (fold (pb_merge ow s l) entries (pb_merge ow s l en pbs) ! i)"
      "pb_owner_id (fold (pb_merge ow s l) entries (pb_merge ow s l en pbs) ! i) =
         pb_owner_id (pb_merge ow s l en pbs ! i)"
      "pb_exercise_id (fold (pb_merge ow s l) entries (pb_merge ow s l en pbs) ! i) =
         pb_exercise_id (pb_merge ow s l en pbs ! i)"
      "pb_kind (fold (pb_merge ow s l) entries (pb_merge ow s l en pbs) ! i) =
         pb_kind (pb_merge ow s l en pbs ! i)" by simp_all
    show "pb_value (pbs ! i) \<le> pb_value (fold (pb_merge ow s l) (en # entries) pbs ! i)"
      using a'(1) b'(1) by simp
    show "pb_owner_id (fold (pb_merge ow s l) (en # entries) pbs ! i) = pb_owner_id (pbs ! i)"
      using a'(2) b'(2) by simp
    show "pb_exercise_id (fold (pb_merge ow s l) (en # entries) pbs ! i) = pb_exercise_id (pbs ! i)"
      using a'(3) b'(3) by simp
    show "pb_kind (fold (pb_merge ow s l) (en # entries) pbs ! i) = pb_kind (pbs ! i)"
      using a'(4) b'(4) by simp
  qed
qed

lemma steps_rows:
  "length (personal_bests d)
     \<le> length (personal_bests (fold (\<lambda>(ow, s, l) d'. update_personal_bests d' ow s l) steps d)) \<and>
   (\<forall>i<length (personal_bests d).
      pb_value (personal_bests d ! i)
        \<le> pb_value (personal_bests (fold (\<lambda>(ow, s, l) d'. update_personal_bests d' ow s l) steps d) ! i))"
proof (induction steps arbitrary: d)
  case Nil
  then show ?case by simp
next
  case (Cons st steps)
  obtain ow s l where st: "st = (ow, s, l)" by (cases st) auto
  let ?d1 = "update_personal_bests d ow s l"
  have p1: "personal_bests ?d1 = fold (pb_merge ow s l) (pb_entries l) (personal_bests d)"
    by (simp add: update_personal_bests_def)
  note a = pb_merges_rows[of "personal_bests d" ow s l "pb_entries l", folded p1]
  note b = Cons.IH[of ?d1]
  show ?case
  proof (intro conjI allI impI)
    show "length (personal_bests d)
     \<le> length (personal_bests (fold (\<lambda>(ow, s, l) d'. update_personal_bests d' ow s l) (st # steps) d))"
      using a b by (simp add: st)
  next
    fix i assume i: "i < length (personal_bests d)"
    then have "i < length (personal_bests ?d1)" using a by simp
    with b have "pb_value (personal_bests ?d1 ! i)
        \<le> pb_value (personal_bests (fold (\<lambda>(ow, s, l) d'. update_personal_bests d' ow s l) steps ?d1) ! i)"
      by simp
    moreover from a i have "pb_value (personal_bests d ! i) \<le> pb_value (personal_bests ?d1 ! i)"
      by simp
    ultimately show "pb_value (personal_bests d ! i)
        \<le> pb_value (personal_bests (fold (\<lambda>(ow, s, l) d'. update_personal_bests d' ow s l)
                         (st # steps) d) ! i)"
      by (simp add: st)
  qed
qed

text \<open>
  Along every sequence of SetLog merges of api/main.py, the record that the lookup for a
  key finds has a value at least as large as before, and so has every stored row; a merge
  whose candidate is not greater than the existing record changes nothing (a tie keeps the
  record and its date); and a row that a merge does change had a strictly smaller value and
  gets exactly the candidate's value, reps, date, set_log_id and label.
\<close>

lemma api_pb_value_non_decreasing:
  "(\<forall>old. find (pb_query o1 e k r) (personal_bests d) = Some old \<longrightarrow>
      (\<exists>new. find (pb_query o1 e k r)
                (personal_bests (fold (\<lambda>(ow, s, l) d'. update_personal_bests d' ow s l) steps d))
              = Some new \<and> pb_value old \<le> pb_value new)) \<and>
   (\<forall>i<length (personal_bests d).
      pb_value (personal_bests d ! i)
        \<le> pb_value (personal_bests
                       (fold (\<lambda>(ow, s, l) d'. update_personal_bests d' ow s l) steps d) ! i)) \<and>
   (\<forall>existing. find (pb_query ow (log_exercise_id l) kind (log_reps l)) pbs = Some existing \<longrightarrow>
      val \<le> pb_value existing \<longrightarrow> pb_merge ow s l (kind, label, val) pbs = pbs) \<and>
   (\<forall>i<length pbs. pb_merge ow s l (kind, label, val) pbs ! i \<noteq> pbs ! i \<longrightarrow>
      pb_value (pbs ! i) < val \<and>
      pb_merge ow s l (kind, label, val) pbs ! i =
        (pbs ! i)\<lparr>pb_value := val, pb_reps := log_reps l, pb_date := sess_date s,
                  pb_set_log_id := log_id l, pb_label := label\<rparr>)"
proof -
  have a: "\<forall>old. find (pb_query o1 e k r) (personal_bests d) = Some old \<longrightarrow>
      (\<exists>new. find (pb_query o1 e k r)
                (personal_bests (fold (\<lambda>(ow, s, l) d'. update_personal_bests d' ow s l) steps d))
              = Some new \<and> pb_value old \<le> pb_value new)"
    by (intro allI impI) (rule steps_mono)
  have a': "\<forall>i<length (personal_bests d).
      pb_value (personal_bests d ! i)
        \<le> pb_value (personal_bests
                       (fold (\<lambda>(ow, s, l) d'. update_personal_bests d' ow s l) steps d) ! i)"
    using steps_rows[of d steps] by blast
  have b: "\<forall>existing. find (pb_query ow (log_exercise_id l) kind (log_reps l)) pbs = Some existing \<longrightarrow>
      val \<le> pb_value existing \<longrightarrow> pb_merge ow s l (kind, label, val) pbs = pbs"
    by (intro allI impI) (rule pb_merge_tie)
  have c: "\<forall>i<length pbs. pb_merge ow s l (kind, label, val) pbs ! i \<noteq> pbs ! i \<longrightarrow>
      pb_value (pbs ! i) < val \<and>
      pb_merge ow s l (kind, label, val) pbs ! i =
        (pbs ! i)\<lparr>pb_value := val, pb_reps := log_reps l, pb_date := sess_date s,
                  pb_set_log_id := log_id l, pb_label := label\<rparr>"
    by (intro allI impI) (rule pb_merge_changed)
  show ?thesis by (rule conjI[OF a conjI[OF a' conjI[OF b c]]])
qed

section \<open>Personal bests of the file store after a NaN\<close>

text \<open>
  \<open>update_pb_entry\<close> of GYM/app.py keeps the existing record when
  \<open>value <= existing["value"]\<close> and overwrites it otherwise. The test is false whenever
  one side is NaN, so a NaN candidate overwrites any record, and any candidate overwrites a
  NaN record.
\<close>

lemma update_pb_entry_nan:
  "find (pb_entry_matches ex kind reps) pbs = Some existing \<Longrightarrow>
   val = NaN \<or> fb_value existing = NaN \<Longrightarrow>
   update_pb_entry gen ex kind label val reps date sid (n, pbs) =
     (n, update_first (pb_entry_matches ex kind reps)
           (\<lambda>pb. pb\<lparr>fb_value := val, fb_reps := reps, fb_date := date,
                     fb_set_log_id := sid, fb_label := label\<rparr>) pbs)"
  by (auto simp: update_pb_entry_def float_le_def split: pyfloat.splits)

text \<open>
  C1. Three sets of 5 reps of one exercise in one session of the file store, of weight
  100, NaN and 50, merged in this order by \<open>update_personal_bests\<close> of GYM/app.py from an
  empty list: the stored \<open>max_weight_reps\<close> value of the key is 100 after the first set,
  NaN after the second and 50 after the third, and the two other records go the same way.
  \<open>finish_session\<close> on the session leaves the records of the third set, below those of
  the first.
\<close>

theorem cli_pb_value_decreases_after_nan:
  "map fb_value (snd (fold (cli_update_set demo_gen ''2024-05-02'')
                        [file_log ''l1'' 100 5] (0, [])))
     = [Num (350 / 3), Num 100, Num 500] \<and>
   map fb_value (snd (fold (cli_update_set demo_gen ''2024-05-02'')
                        [file_log ''l1'' 100 5, file_log_nan ''l2'' 5] (0, [])))
     = [NaN, NaN, NaN] \<and>
   map fb_value (snd (fold (cli_update_set demo_gen ''2024-05-02'')
                        [file_log ''l1'' 100 5, file_log_nan ''l2'' 5, file_log ''l3'' 50 5] (0, [])))
     = [Num (175 / 3), Num 50, Num 250] \<and>
   (case cli_finish_session demo_gen 0 nan_db ''s1'' of
      Inl e \<Rightarrow> False
    | Inr (n, d) \<Rightarrow>
        map fsn_status (f_sessions d) = [''done''] \<and>
        map (\<lambda>pb. (fb_kind pb, fb_reps pb, fb_value pb, fb_set_log_id pb)) (f_personal_bests d)
          = [(''est_1rm'', 5, Num (175 / 3), ''l3''), (''max_weight_reps'', 5, Num 50, ''l3''),
             (''max_volume'', 5, Num 250, ''l3'')])"
  by (simp add: cli_finish_session_def require_id_def nan_db_def file_log_nan_def file_defs
      cli_pb_defs)
section \<open>A second derivation pass changes nothing\<close>

lemma covered_after_merge: "covered ow l entry (pb_merge ow s l entry pbs)"
proof (cases entry)
  case (fields kind label val)
  let ?P = "pb_query ow (log_exercise_id l) kind (log_reps l)"
  show ?thesis
  proof (cases "find ?P pbs")
    case None
    then show ?thesis using fields
      by (simp add: covered_def pb_merge_def find_append_None) (simp add: pb_query_def)
  next
    case (Some existing)
    then have "?P existing" by (auto simp: find_Some_iff)
    then show ?thesis using fields Some
      by (auto simp: covered_def pb_merge_def find_update_first_same pb_query_update)
  qed
qed

lemma covered_merge_keeps:
  "covered ow l entry pbs \<Longrightarrow> covered ow l entry (pb_merge ow' s' l' entry' pbs)"
  unfolding covered_def
  by (cases entry) (auto dest: pb_merge_mono[where ow = ow' and s = s' and l = l' and entry = entry'])

lemma covered_merges_keep:
  "covered ow l entry pbs \<Longrightarrow> covered ow l entry (fold (pb_merge ow' s' l') entries pbs)"
  by (induction entries arbitrary: pbs) (auto intro: covered_merge_keeps)

lemma covered_entries_after:
  "en \<in> set entries \<Longrightarrow> covered ow l en (fold (pb_merge ow s l) entries pbs)"
proof (induction entries arbitrary: pbs)
  case Nil
  then show ?case by simp
next
  case (Cons a entries)
  show ?case
  proof (cases "en = a")
    case True
    then show ?thesis by (simp add: covered_merges_keep covered_after_merge)
  next
    case False
    then show ?thesis using Cons by simp
  qed
qed

lemma covered_identity:
  "covered ow l entry pbs \<Longrightarrow> pb_merge ow s l entry pbs = pbs"
  by (cases entry) (auto simp: covered_def pb_merge_def)

lemma covered_entries_identity:
  "(\<And>en. en \<in> set entries \<Longrightarrow> covered ow l en pbs) \<Longrightarrow> fold (pb_merge ow s l) entries pbs = pbs"
  by (induction entries) (auto simp: covered_identity)

lemma personal_bests_merge_set_logs:
  "merge_set_logs d ow s logs =
     d\<lparr>personal_bests := fold (\<lambda>l. fold (pb_merge ow s l) (pb_entries l)) logs (personal_bests d)\<rparr>"
  by (induction logs arbitrary: d) (auto simp: merge_set_logs_def update_personal_bests_def)

lemma covered_pass_keeps:
  "covered ow l entry pbs \<Longrightarrow>
   covered ow l entry (fold (\<lambda>l'. fold (pb_merge ow' s' l') (pb_entries l')) logs pbs)"
  by (induction logs arbitrary: pbs) (auto intro: covered_merges_keep)

lemma covered_after_pass:
  "l \<in> set logs \<Longrightarrow> en \<in> set (pb_entries l) \<Longrightarrow>
   covered ow l en (fold (\<lambda>l'. fold (pb_merge ow s l') (pb_entries l')) logs pbs)"
proof (induction logs arbitrary: pbs)
  case Nil
  then show ?case by simp
next
  case (Cons a logs)
  show ?case
  proof (cases "l = a")
    case True
    then show ?thesis using Cons.prems
      by (simp add: covered_pass_keeps covered_entries_after)
  next
    case False
    then show ?thesis using Cons by simp
  qed
qed

lemma covered_pass_identity:
  "(\<And>l en. l \<in> set logs \<Longrightarrow> en \<in> set (pb_entries l) \<Longrightarrow> covered ow l en pbs) \<Longrightarrow>
   fold (\<lambda>l'. fold (pb_merge ow s l') (pb_entries l')) logs pbs = pbs"
  by (induction logs) (auto simp: covered_entries_identity)

lemma pass_idempotent:
  "fold (\<lambda>l'. fold (pb_merge ow s l') (pb_entries l')) logs
     (fold (\<lambda>l'. fold (pb_merge ow s l') (pb_entries l')) logs pbs)
   = fold (\<lambda>l'. fold (pb_merge ow s l') (pb_entries l')) logs pbs"
  by (rule covered_pass_identity) (rule covered_after_pass)


lemma merge_set_logs_fields [simp]:
  "sessions (merge_set_logs d ow s logs) = sessions d"
  "set_logs (merge_set_logs d ow s logs) = set_logs d"
  by (simp_all add: personal_bests_merge_set_logs)

lemma merge_set_logs_idem:
  "merge_set_logs (merge_set_logs d ow s logs) ow s logs = merge_set_logs d ow s logs"
  by (simp add: personal_bests_merge_set_logs pass_idempotent)

lemma finish_session_again:
  assumes "finish_session d u sid = Inr (d1, r)"
  shows "finish_session d1 u sid = Inr (d1, r)"
proof -
  let ?P = "\<lambda>s. sess_id s = sid"
  let ?f = "\<lambda>s. s\<lparr>sess_status := ''done''\<rparr>"
  from assms obtain sess0 where f0: "find ?P (sessions d) = Some sess0"
    by (auto simp: finish_session_def split: option.splits)
  from assms f0 have own: "ensure_owner (sess_owner_id sess0) u = Inr ()"
    by (auto simp: finish_session_def split: sum.splits)
  let ?sess = "?f sess0"
  let ?d0 = "d\<lparr>sessions := update_first ?P ?f (sessions d)\<rparr>"
  let ?logs = "filter (\<lambda>l. log_session_id l = sess_id ?sess) (set_logs ?d0)"
  from assms f0 own have d1: "d1 = merge_set_logs ?d0 (user_id u) ?sess ?logs"
    and r: "r = serialize_session d1 ?sess"
    by (auto simp: finish_session_def Let_def)
  have P0: "?P sess0" using f0 by (auto simp: find_Some_iff)
  have s1: "sessions d1 = update_first ?P ?f (sessions d)" by (simp add: d1)
  have l1: "set_logs d1 = set_logs d" by (simp add: d1)
  have f1: "find ?P (sessions d1) = Some ?sess"
    unfolding s1 using f0 P0 by (intro find_update_first_same) simp_all
  have upd: "d1\<lparr>sessions := update_first ?P ?f (sessions d1)\<rparr> = d1"
    unfolding s1 by (subst update_first_idem) (simp_all add: s1[symmetric])
  have again: "merge_set_logs d1 (user_id u) ?sess ?logs = d1"
    unfolding d1 by (rule merge_set_logs_idem)
  show ?thesis
    using f1 own upd again r l1 by (simp add: finish_session_def Let_def)
qed

text \<open>
  C10 (amended). Running the derive-and-merge pass a second time over the same session and
  the same SetLogs, from the PersonalBest table the first pass produced, changes no record:
  after the first pass the lookup for every candidate's key finds a record whose value is
  at least the candidate's value, and the merge replaces only on a strictly greater value.
  The same holds for the endpoint: \<open>finish_session\<close> on the store it has just returned
  returns that store again.
\<close>

theorem pb_derivation_second_pass:
  "merge_set_logs (merge_set_logs d ow s logs) ow s logs = merge_set_logs d ow s logs \<and>
   (\<forall>l\<in>set logs. \<forall>kind label val. (kind, label, val) \<in> set (pb_entries l) \<longrightarrow>
      (\<exists>stored. find (pb_query ow (log_exercise_id l) kind (log_reps l))
                   (personal_bests (merge_set_logs d ow s logs)) = Some stored \<and>
                 val \<le> pb_value stored)) \<and>
   (\<forall>d1 r. finish_session d0 u sid = Inr (d1, r) \<longrightarrow> finish_session d1 u sid = Inr (d1, r))"
proof -
  have a: "merge_set_logs (merge_set_logs d ow s logs) ow s logs = merge_set_logs d ow s logs"
    by (rule merge_set_logs_idem)
  have b: "\<forall>l\<in>set logs. \<forall>kind label val. (kind, label, val) \<in> set (pb_entries l) \<longrightarrow>
      (\<exists>stored. find (pb_query ow (log_exercise_id l) kind (log_reps l))
                   (personal_bests (merge_set_logs d ow s logs)) = Some stored \<and>
                 val \<le> pb_value stored)"
  proof (intro ballI allI impI)
    fix l kind label val
    assume "l \<in> set logs" and "(kind, label, val) \<in> set (pb_entries l)"
    then have "covered ow l (kind, label, val)
                 (fold (\<lambda>l'. fold (pb_merge ow s l') (pb_entries l')) logs (personal_bests d))"
      by (rule covered_after_pass)
    then show "\<exists>stored. find (pb_query ow (log_exercise_id l) kind (log_reps l))
                   (personal_bests (merge_set_logs d ow s logs)) = Some stored \<and>
                 val \<le> pb_value stored"
      by (simp add: covered_def personal_bests_merge_set_logs)
  qed
  have c: "\<forall>d1 r. finish_session d0 u sid = Inr (d1, r) \<longrightarrow> finish_session d1 u sid = Inr (d1, r)"
    by (intro allI impI) (rule finish_session_again)
  show ?thesis by (rule conjI[OF a conjI[OF b c]])
qed

theorem pb_derivation_second_pass_witness:
  "demo_log 2 90 5 \<in> set [demo_log 1 100 5, demo_log 2 90 5] \<and>
   (''max_weight_reps'', ''Max weight for 5 reps'', 90) \<in> set (pb_entries (demo_log 2 90 5)) \<and>
   (\<exists>stored. find (pb_query 1 (log_exercise_id (demo_log 2 90 5)) ''max_weight_reps''
                     (log_reps (demo_log 2 90 5)))
                (personal_bests (merge_set_logs empty_db 1 demo_session
                                   [demo_log 1 100 5, demo_log 2 90 5])) = Some stored \<and>
              90 \<le> pb_value stored) \<and>
   (\<exists>d1 r. finish_session open_db demo_user 1 = Inr (d1, r) \<and>
           finish_session d1 demo_user 1 = Inr (d1, r))"
proof -
  note t = pb_derivation_second_pass[where d = empty_db and ow = 1 and s = demo_session
      and logs = "[demo_log 1 100 5, demo_log 2 90 5]" and ?d0.0 = open_db and u = demo_user and sid = 1]
  have h1: "demo_log 2 90 5 \<in> set [demo_log 1 100 5, demo_log 2 90 5]" by simp
  have h2: "(''max_weight_reps'', ''Max weight for 5 reps'', 90) \<in> set (pb_entries (demo_log 2 90 5))"
    by (simp add: pb_entries_def demo_log_def str_of_int_def digit_char_def)
  obtain d1 r where h3: "finish_session open_db demo_user 1 = Inr (d1, r)"
    by (simp add: finish_session_def ensure_owner_def demo_defs Let_def)
  from t h1 h2 have c1: "\<exists>stored. find (pb_query 1 (log_exercise_id (demo_log 2 90 5)) ''max_weight_reps''
                     (log_reps (demo_log 2 90 5)))
                (personal_bests (merge_set_logs empty_db 1 demo_session
                                   [demo_log 1 100 5, demo_log 2 90 5])) = Some stored \<and>
              90 \<le> pb_value stored" by blast
  from t h3 have c2: "finish_session d1 demo_user 1 = Inr (d1, r)" by blast
  from h1 h2 c1 h3 c2 show ?thesis by blast
qed

text \<open>
  C10 as stated says that every candidate value equals the stored value. With two sets of
  5 reps at 100 and at 90 in one session, the candidate of the second set is 90 and the
  record stored for its key after the first pass holds 100.
\<close>

theorem pb_second_pass_candidate_below_stored:
  "(''max_weight_reps'', ''Max weight for 5 reps'', 90) \<in> set (pb_entries (demo_log 2 90 5)) \<and>
   map_option pb_value
     (find (pb_query 1 (log_exercise_id (demo_log 2 90 5)) ''max_weight_reps''
              (log_reps (demo_log 2 90 5)))
        (personal_bests (merge_set_logs empty_db 1 demo_session
                           [demo_log 1 100 5, demo_log 2 90 5]))) = Some 100 \<and>
   (90::real) \<noteq> 100"
  by (simp add: demo_defs pb_defs)

section \<open>The key of a max_volume record\<close>

text \<open>
  C3. Two sets of the same exercise, 100 x 5 and then 100 x 8 (volumes 500 and 800), merged
  by \<open>update_personal_bests\<close> of api/main.py from an empty table: the lookup of a
  \<open>max_volume\<close> record filters on the rep count (every kind but \<open>est_1rm\<close> does), so
  the second, higher volume does not replace the first and two \<open>max_volume\<close> records
  exist. \<open>update_pb_entry\<close> of GYM/app.py on the same sets ignores the rep count for every
  kind but \<open>max_weight_reps\<close> and keeps one \<open>max_volume\<close> record, of value 800.
\<close>

theorem max_volume_keyed_by_reps:
  "map (\<lambda>pb. (pb_kind pb, pb_reps pb, pb_value pb))
       (personal_bests (merge_set_logs empty_db 1 demo_session [demo_log 1 100 5, demo_log 2 100 8]))
   = [(''est_1rm'', 8, 380 / 3), (''max_weight_reps'', 5, 100), (''max_volume'', 5, 500),
      (''max_weight_reps'', 8, 100), (''max_volume'', 8, 800)] \<and>
   map (\<lambda>pb. (fb_kind pb, fb_reps pb, fb_value pb))
      (f_personal_bests (snd (cli_update_personal_bests demo_gen 0 file_demo_db file_session0)))
   = [(''est_1rm'', 8, Num (380 / 3)), (''max_weight_reps'', 5, Num 100),
      (''max_volume'', 8, Num 800), (''max_weight_reps'', 8, Num 100)]"
  by (simp add: demo_defs pb_defs file_defs cli_pb_defs)

section \<open>Finishing a session that is already done\<close>

text \<open>
  The store \<open>done_db\<close> is reached through the API: finishing the session of
  \<open>open_db\<close> and logging one more set into it.
\<close>

lemma done_db_reachable: "case finish_session open_db demo_user 1 of Inl e \<Rightarrow> False
   | Inr (d1, r1) \<Rightarrow> (case log_set d1 demo_user 1 (demo_payload 120 5) of Inl e \<Rightarrow> False
       | Inr (d2, l2) \<Rightarrow> d2 = done_db)"
  by (simp add: finish_session_def log_set_def ensure_owner_def sqlite_integer_def
      serialize_session_def demo_defs pb_defs)

text \<open>
  C4. \<open>finish_session\<close> of api/main.py on the done session of \<open>done_db\<close> is not
  rejected: it returns a result, and the three personal bests of the first set are replaced
  by those of the set logged after the first finish.
\<close>

theorem finish_session_on_done_session:
  "case finish_session done_db demo_user 1 of Inl e \<Rightarrow> False
   | Inr (d3, r3) \<Rightarrow> map sess_status (sessions done_db) = [''done''] \<and>
       map pb_value (personal_bests done_db) = [350 / 3, 100, 500] \<and>
       map pb_value (personal_bests d3) = [140, 120, 600] \<and>
       map pb_set_log_id (personal_bests d3) = [2, 2, 2]"
  by (simp add: finish_session_def ensure_owner_def serialize_session_def demo_defs pb_defs)

text \<open>\<open>finish_session\<close> of GYM/app.py returns the store unchanged for a done session.\<close>

lemma cli_finish_session_done: "fsn_status session = ''done'' \<Longrightarrow>
   find (\<lambda>s. fsn_id s = sid) (f_sessions fd) = Some session \<Longrightarrow>
   cli_finish_session gen n fd sid = Inr (n, fd)"
  by (simp add: cli_finish_session_def require_id_def)

section \<open>Logging a set does not read the session status\<close>

text \<open>
  C8 as stated fails: \<open>log_set\<close> on the done session of \<open>done_db\<close> succeeds and
  adds a third SetLog to the session.
\<close>

theorem log_set_on_done_session: "log_set done_db demo_user 1 (demo_payload 130 5) =
    Inr (done_db\<lparr>set_logs := set_logs done_db @ [demo_log 3 130 5]\<rparr>, demo_log 3 130 5)"
  by (simp add: log_set_def ensure_owner_def sqlite_integer_def demo_defs next_id_def Let_def
      eval_nat_numeral)

text \<open>Giving the sessions other statuses changes no lookup by id.\<close>

lemma find_restatus:
  "find (\<lambda>s. sess_id s = sid) (map (\<lambda>s. s\<lparr>sess_status := st (sess_id s)\<rparr>) xs) =
     map_option (\<lambda>s. s\<lparr>sess_status := st (sess_id s)\<rparr>) (find (\<lambda>s. sess_id s = sid) xs)"
  by (induction xs) auto

lemma find_file_restatus:
  "find (\<lambda>s. fsn_id s = sid) (map (\<lambda>s. s\<lparr>fsn_status := st (fsn_id s)\<rparr>) xs) =
     map_option (\<lambda>s. s\<lparr>fsn_status := st (fsn_id s)\<rparr>) (find (\<lambda>s. fsn_id s = sid) xs)"
  by (induction xs) auto

lemma update_first_file_restatus:
  "update_first (\<lambda>s. fsn_id s = sid) (\<lambda>s. s\<lparr>fsn_set_logs := fsn_set_logs s @ [entry]\<rparr>)
     (map (\<lambda>s. s\<lparr>fsn_status := st (fsn_id s)\<rparr>) xs) =
   map (\<lambda>s. s\<lparr>fsn_status := st (fsn_id s)\<rparr>)
     (update_first (\<lambda>s. fsn_id s = sid) (\<lambda>s. s\<lparr>fsn_set_logs := fsn_set_logs s @ [entry]\<rparr>) xs)"
  by (induction xs) auto

lemma log_set_restatus:
  "log_set (d\<lparr>sessions := map (\<lambda>s. s\<lparr>sess_status := st (sess_id s)\<rparr>) (sessions d)\<rparr>) u sid p =
     (case log_set d u sid p of
        Inl e \<Rightarrow> Inl e
      | Inr (d', l) \<Rightarrow>
          Inr (d'\<lparr>sessions := map (\<lambda>s. s\<lparr>sess_status := st (sess_id s)\<rparr>) (sessions d')\<rparr>, l))"
proof (cases "find (\<lambda>s. sess_id s = sid) (sessions d)")
  case None
  then show ?thesis by (simp add: log_set_def find_restatus)
next
  case (Some sess)
  show ?thesis
  proof (cases "p_weight p")
    case NaN
    then show ?thesis using Some by (simp add: log_set_def find_restatus ensure_owner_def)
  next
    case w: (Num weight)
    show ?thesis
    proof (cases "p_rpe p")
      case NaN
      then show ?thesis using Some w by (simp add: log_set_def find_restatus ensure_owner_def)
    next
      case (Num rpe)
      then show ?thesis using Some w
        by (simp add: log_set_def find_restatus ensure_owner_def Let_def)
    qed
  qed
qed

lemma cli_log_set_restatus:
  "cli_log_set gen n
     (fd\<lparr>f_sessions := map (\<lambda>s. s\<lparr>fsn_status := st (fsn_id s)\<rparr>) (f_sessions fd)\<rparr>) args =
     (case cli_log_set gen n fd args of
        Inl e \<Rightarrow> Inl e
      | Inr (n', fd') \<Rightarrow>
          Inr (n', fd'\<lparr>f_sessions := map (\<lambda>s. s\<lparr>fsn_status := st (fsn_id s)\<rparr>) (f_sessions fd')\<rparr>))"
  by (simp add: cli_log_set_def require_id_def find_file_restatus update_first_file_restatus Let_def
      split: option.splits)

lemma log_set_success:
  assumes "log_set d u sid p = Inr (d', l)"
  shows "d' = d\<lparr>set_logs := set_logs d @ [l]\<rparr> \<and> log_session_id l = sid \<and>
         log_id l \<notin> log_id ` set (set_logs d)"
proof -
  have "next_id (map log_id (set_logs d)) \<notin> log_id ` set (set_logs d)"
    using next_id_fresh[of _ "map log_id (set_logs d)"] by fastforce
  then show ?thesis
    using assms
    by (auto simp: log_set_def ensure_owner_def Let_def
        split: option.splits pyfloat.splits if_splits)
qed

lemma cli_log_set_success:
  assumes "cli_log_set gen n fd args = Inr (n', fd')"
  shows "\<exists>entry. fd' = fd\<lparr>f_sessions := update_first (\<lambda>s. fsn_id s = la_session_id args)
                          (\<lambda>s. s\<lparr>fsn_set_logs := fsn_set_logs s @ [entry]\<rparr>) (f_sessions fd)\<rparr>"
  using assms
  by (auto simp: cli_log_set_def require_id_def Let_def split: option.splits)

text \<open>
  C8 (amended). The log-set operation does not read the session's status: on a store
  whose sessions have been given any other statuses (done or cancelled for in progress,
  say) \<open>log_set\<close> of api/main.py fails with the same error, or succeeds with the same
  SetLog and the same change of the store, as on the original store; and when it succeeds
  it has appended exactly one SetLog, of that session and with an unused id, and changed
  nothing else. The same holds for \<open>log_set\<close> of GYM/app.py, which appends one entry to
  the set logs of the session it finds.
\<close>

theorem log_set_ignores_status:
  "log_set (d\<lparr>sessions := map (\<lambda>s. s\<lparr>sess_status := st (sess_id s)\<rparr>) (sessions d)\<rparr>) u sid p =
     (case log_set d u sid p of
        Inl e \<Rightarrow> Inl e
      | Inr (d', l) \<Rightarrow>
          Inr (d'\<lparr>sessions := map (\<lambda>s. s\<lparr>sess_status := st (sess_id s)\<rparr>) (sessions d')\<rparr>, l)) \<and>
   (\<forall>d' l. log_set d u sid p = Inr (d', l) \<longrightarrow>
      d' = d\<lparr>set_logs := set_logs d @ [l]\<rparr> \<and> log_session_id l = sid \<and>
      log_id l \<notin> log_id ` set (set_logs d)) \<and>
   cli_log_set gen n
     (fd\<lparr>f_sessions := map (\<lambda>s. s\<lparr>fsn_status := fstat (fsn_id s)\<rparr>) (f_sessions fd)\<rparr>) args =
     (case cli_log_set gen n fd args of
        Inl e \<Rightarrow> Inl e
      | Inr (n', fd') \<Rightarrow>
          Inr (n', fd'\<lparr>f_sessions := map (\<lambda>s. s\<lparr>fsn_status := fstat (fsn_id s)\<rparr>) (f_sessions fd')\<rparr>)) \<and>
   (\<forall>n' fd'. cli_log_set gen n fd args = Inr (n', fd') \<longrightarrow>
      (\<exists>entry. fd' = fd\<lparr>f_sessions := update_first (\<lambda>s. fsn_id s = la_session_id args)
                          (\<lambda>s. s\<lparr>fsn_set_logs := fsn_set_logs s @ [entry]\<rparr>) (f_sessions fd)\<rparr>))"
proof -
  have b: "\<forall>d' l. log_set d u sid p = Inr (d', l) \<longrightarrow>
      d' = d\<lparr>set_logs := set_logs d @ [l]\<rparr> \<and> log_session_id l = sid \<and>
      log_id l \<notin> log_id ` set (set_logs d)"
    by (intro allI impI) (rule log_set_success)
  have c: "\<forall>n' fd'. cli_log_set gen n fd args = Inr (n', fd') \<longrightarrow>
      (\<exists>entry. fd' = fd\<lparr>f_sessions := update_first (\<lambda>s. fsn_id s = la_session_id args)
                          (\<lambda>s. s\<lparr>fsn_set_logs := fsn_set_logs s @ [entry]\<rparr>) (f_sessions fd)\<rparr>)"
    by (intro allI impI) (rule cli_log_set_success)
  show ?thesis
    by (rule conjI[OF log_set_restatus conjI[OF b conjI[OF cli_log_set_restatus c]]])
qed

theorem log_set_ignores_status_witness:
  "log_set open_db demo_user 1 (demo_payload 130 5) =
     Inr (open_db\<lparr>set_logs := set_logs open_db @ [demo_log 2 130 5]\<rparr>, demo_log 2 130 5) \<and>
   log_set (open_db\<lparr>sessions := map (\<lambda>s. s\<lparr>sess_status := ''done''\<rparr>) (sessions open_db)\<rparr>)
       demo_user 1 (demo_payload 130 5) =
     Inr (open_db\<lparr>set_logs := set_logs open_db @ [demo_log 2 130 5],
                  sessions := [demo_session\<lparr>sess_status := ''done''\<rparr>]\<rparr>, demo_log 2 130 5) \<and>
   log_session_id (demo_log 2 130 5) = 1 \<and>
   log_id (demo_log 2 130 5) \<notin> log_id ` set (set_logs open_db) \<and>
   cli_log_set demo_gen 0
       (file_demo_db\<lparr>f_sessions := map (\<lambda>s. s\<lparr>fsn_status := ''cancelled''\<rparr>) (f_sessions file_demo_db)\<rparr>)
       demo_log_args =
     Inr (Suc 0, file_demo_db\<lparr>f_sessions :=
            [file_session0\<lparr>fsn_set_logs := fsn_set_logs file_session0 @
                              [\<lparr>fl_id = ''id0'', fl_exercise_id = ''e7'', fl_set_number = 3,
                                fl_weight = Num 110, fl_reps = 5, fl_rpe = Num 8,
                                fl_comment = []\<rparr>],
                            fsn_status := ''cancelled''\<rparr>]\<rparr>)"
proof -
  note t = log_set_ignores_status[where d = open_db and st = "\<lambda>i. ''done''" and u = demo_user
      and sid = 1 and p = "demo_payload 130 5" and gen = demo_gen and n = 0 and fd = file_demo_db
      and fstat = "\<lambda>i. ''cancelled''" and args = demo_log_args]
  have run: "log_set open_db demo_user 1 (demo_payload 130 5) =
     Inr (open_db\<lparr>set_logs := set_logs open_db @ [demo_log 2 130 5]\<rparr>, demo_log 2 130 5)"
    by (simp add: log_set_def ensure_owner_def sqlite_integer_def demo_defs next_id_def Let_def
        eval_nat_numeral)
  have cli: "cli_log_set demo_gen 0 file_demo_db demo_log_args =
     Inr (Suc 0, file_demo_db\<lparr>f_sessions :=
            [file_session0\<lparr>fsn_set_logs := fsn_set_logs file_session0 @
                              [\<lparr>fl_id = ''id0'', fl_exercise_id = ''e7'', fl_set_number = 3,
                                fl_weight = Num 110, fl_reps = 5, fl_rpe = Num 8,
                                fl_comment = []\<rparr>]\<rparr>]\<rparr>)"
    by (simp add: cli_log_set_def require_id_def demo_log_args_def file_demo_db_def
        file_session0_def demo_gen_def digit_char_def Let_def)
  from t run have c1: "log_set (open_db\<lparr>sessions := map (\<lambda>s. s\<lparr>sess_status := ''done''\<rparr>) (sessions open_db)\<rparr>)
       demo_user 1 (demo_payload 130 5) =
     Inr (open_db\<lparr>set_logs := set_logs open_db @ [demo_log 2 130 5],
                  sessions := [demo_session\<lparr>sess_status := ''done''\<rparr>]\<rparr>, demo_log 2 130 5)"
    by (simp add: open_db_def empty_db_def)
  from t run have c2: "log_session_id (demo_log 2 130 5) = 1 \<and>
      log_id (demo_log 2 130 5) \<notin> log_id ` set (set_logs open_db)"
    by blast
  from t cli have c3: "cli_log_set demo_gen 0
       (file_demo_db\<lparr>f_sessions := map (\<lambda>s. s\<lparr>fsn_status := ''cancelled''\<rparr>) (f_sessions file_demo_db)\<rparr>)
       demo_log_args =
     Inr (Suc 0, file_demo_db\<lparr>f_sessions :=
            [file_session0\<lparr>fsn_set_logs := fsn_set_logs file_session0 @
                              [\<lparr>fl_id = ''id0'', fl_exercise_id = ''e7'', fl_set_number = 3,
                                fl_weight = Num 110, fl_reps = 5, fl_rpe = Num 8,
                                fl_comment = []\<rparr>],
                            fsn_status := ''cancelled''\<rparr>]\<rparr>)"
    by (simp add: file_demo_db_def)
  from run c1 c2 c3 show ?thesis by simp
qed

section \<open>Deleting a program\<close>

text \<open>
  C2. In \<open>prog_db\<close> program 1 has one template with one row and one session holding two
  SetLogs. \<open>delete_program\<close> of api/main.py removes the program, the template, the row
  and the session, leaves the personal bests, and leaves both SetLogs of the deleted session
  in the store.
\<close>

theorem delete_program_leaves_set_logs:
  "delete_program prog_db demo_user 1 = Inr (done_db\<lparr>sessions := []\<rparr>, 1) \<and>
   map log_session_id (set_logs (done_db\<lparr>sessions := []\<rparr>)) = [1, 1] \<and>
   personal_bests (done_db\<lparr>sessions := []\<rparr>) = personal_bests prog_db"
  by (simp add: delete_program_def delete_template_rows_def ensure_owner_def prog_db_def demo_defs Let_def)

text \<open>\<open>delete_session\<close> on the same store deletes the SetLogs with the session.\<close>

lemma delete_session_deletes_set_logs: "delete_session prog_db demo_user 1 = Inr (prog_db\<lparr>sessions := [], set_logs := []\<rparr>, 1)"
  by (simp add: delete_session_def ensure_owner_def prog_db_def demo_defs Let_def)

text \<open>The delete branch of server.py keeps the sessions of the program.\<close>

lemma server_delete_program_keeps_sessions: "server_delete_program file_demo_db (Some ''p1'') =
   Inr (file_demo_db\<lparr>f_programs := [], f_workout_templates := []\<rparr>)"
  by (simp add: server_delete_program_def file_defs)

section \<open>Friend requests\<close>

lemma find_not_None: "find P xs \<noteq> None \<longleftrightarrow> (\<exists>x\<in>set xs. P x)"
  by (induction xs) auto

lemma find_Some_ex: "(\<exists>y. find P xs = Some y) \<longleftrightarrow> (\<exists>x\<in>set xs. P x)"
  using find_not_None[of P xs] by auto

lemma friendship_key_sym: "friendship_key a b = friendship_key b a"
  by (auto simp: friendship_key_def)

lemma friendship_key_min_max: "friendship_key a b = (min a b, max a b)"
  by (auto simp: friendship_key_def min_def max_def)

lemma friendship_exists_iff:
  "friendship_exists d a b \<longleftrightarrow>
     (\<exists>f\<in>set (friendships d). fs_user_id f = min a b \<and> fs_friend_id f = max a b)"
  by (simp add: friendship_exists_def friendship_key_min_max find_Some_ex)

lemma friendship_exists_sym: "friendship_exists d a b = friendship_exists d b a"
  by (simp add: friendship_exists_iff min.commute max.commute)

lemma pending_found_iff:
  "find (pending_between a b) rs \<noteq> None \<longleftrightarrow>
     (\<exists>fr\<in>set rs. fr_status fr = ''pending'' \<and>
        ((fr_from_user_id fr = a \<and> fr_to_user_id fr = b) \<or>
         (fr_from_user_id fr = b \<and> fr_to_user_id fr = a)))"
  unfolding find_not_None by (auto simp: pending_between_def)

lemma send_conflict:
  assumes "get_user_by_username d name = Some to_user"
    and "user_id to_user = user_id u \<or>
         (\<exists>f\<in>set (friendships d). fs_user_id f = min (user_id u) (user_id to_user) \<and>
                                  fs_friend_id f = max (user_id u) (user_id to_user)) \<or>
         (\<exists>fr\<in>set (friend_requests d). fr_status fr = ''pending'' \<and>
            ((fr_from_user_id fr = user_id u \<and> fr_to_user_id fr = user_id to_user) \<or>
             (fr_from_user_id fr = user_id to_user \<and> fr_to_user_id fr = user_id u)))"
  shows "\<exists>detail. send_friend_request d u name = Inl (HTTPException 400 detail)"
  using assms unfolding friendship_exists_iff[symmetric] pending_found_iff[symmetric]
  by (auto simp: send_friend_request_def Let_def)

lemma send_ok:
  assumes "get_user_by_username d name = Some to_user"
    and "user_id to_user \<noteq> user_id u"
    and "\<not> (\<exists>f\<in>set (friendships d). fs_user_id f = min (user_id u) (user_id to_user) \<and>
                                  fs_friend_id f = max (user_id u) (user_id to_user))"
    and "\<not> (\<exists>fr\<in>set (friend_requests d). fr_status fr = ''pending'' \<and>
            ((fr_from_user_id fr = user_id u \<and> fr_to_user_id fr = user_id to_user) \<or>
             (fr_from_user_id fr = user_id to_user \<and> fr_to_user_id fr = user_id u)))"
  shows "send_friend_request d u name =
           Inr (d\<lparr>friend_requests := friend_requests d @
                    [\<lparr>fr_id = next_id (map fr_id (friend_requests d)),
                      fr_from_user_id = user_id u, fr_to_user_id = user_id to_user,
                      fr_status = ''pending''\<rparr>]\<rparr>,
                \<lparr>fr_id = next_id (map fr_id (friend_requests d)),
                      fr_from_user_id = user_id u, fr_to_user_id = user_id to_user,
                      fr_status = ''pending''\<rparr>)"
  using assms unfolding friendship_exists_iff[symmetric] pending_found_iff[symmetric]
  by (auto simp: send_friend_request_def Let_def)

lemma send_then_reverse:
  assumes t: "get_user_by_username d name = Some to_user"
    and ok: "send_friend_request d u name = Inr (d1, fr)"
    and me: "get_user_by_username d (username u) = Some ua" "user_id ua = user_id u"
  shows "send_friend_request d1 to_user (username u) = Inl (HTTPException 400 ''Request already pending'')"
proof -
  from t ok have ne: "user_id to_user \<noteq> user_id u"
    and nf: "\<not> friendship_exists d (user_id u) (user_id to_user)"
    and d1: "d1 = d\<lparr>friend_requests := friend_requests d @
                    [\<lparr>fr_id = next_id (map fr_id (friend_requests d)),
                      fr_from_user_id = user_id u, fr_to_user_id = user_id to_user,
                      fr_status = ''pending''\<rparr>]\<rparr>"
    by (auto simp: send_friend_request_def Let_def split: if_splits)
  have u1: "get_user_by_username d1 (username u) = Some ua"
    using me by (simp add: d1 get_user_by_username_def)
  have f1: "\<not> friendship_exists d1 (user_id to_user) (user_id ua)"
    using nf me(2) by (simp add: friendship_exists_iff d1 min.commute max.commute)
  have p1: "find (pending_between (user_id to_user) (user_id ua)) (friend_requests d1) \<noteq> None"
    unfolding pending_found_iff by (simp add: d1 me(2))
  show ?thesis using u1 f1 p1 ne me(2) by (simp add: send_friend_request_def)
qed


lemmas friend_defs = demo_user_def demo_friend_def friends_db_def pending_db_def accepted_db_def
  empty_db_def get_user_by_username_def

text \<open>
  C6. When the recipient's username resolves to a user, \<open>send_friend_request\<close> fails with
  status 400 (the API's code for a conflict) if the recipient is the sender, if a Friendship
  row is stored for the pair under its key (the smaller id, the larger id), or if a pending
  request exists between the two in either direction; otherwise it appends a new pending
  request directed from the sender to the recipient. After a successful request from A to
  B, a request from B to A fails with 400 ("Request already pending").
\<close>

theorem send_friend_request_conflicts:
  "get_user_by_username d name = Some to_user \<longrightarrow>
   (user_id to_user = user_id u \<longrightarrow>
      (\<exists>detail. send_friend_request d u name = Inl (HTTPException 400 detail))) \<and>
   ((\<exists>f\<in>set (friendships d). fs_user_id f = min (user_id u) (user_id to_user) \<and>
                             fs_friend_id f = max (user_id u) (user_id to_user)) \<longrightarrow>
      (\<exists>detail. send_friend_request d u name = Inl (HTTPException 400 detail))) \<and>
   ((\<exists>fr\<in>set (friend_requests d). fr_status fr = ''pending'' \<and>
       ((fr_from_user_id fr = user_id u \<and> fr_to_user_id fr = user_id to_user) \<or>
        (fr_from_user_id fr = user_id to_user \<and> fr_to_user_id fr = user_id u))) \<longrightarrow>
      (\<exists>detail. send_friend_request d u name = Inl (HTTPException 400 detail))) \<and>
   (user_id to_user \<noteq> user_id u \<and>
    \<not> (\<exists>f\<in>set (friendships d). fs_user_id f = min (user_id u) (user_id to_user) \<and>
                               fs_friend_id f = max (user_id u) (user_id to_user)) \<and>
    \<not> (\<exists>fr\<in>set (friend_requests d). fr_status fr = ''pending'' \<and>
         ((fr_from_user_id fr = user_id u \<and> fr_to_user_id fr = user_id to_user) \<or>
          (fr_from_user_id fr = user_id to_user \<and> fr_to_user_id fr = user_id u))) \<longrightarrow>
      send_friend_request d u name =
        Inr (d\<lparr>friend_requests := friend_requests d @
                 [\<lparr>fr_id = next_id (map fr_id (friend_requests d)),
                   fr_from_user_id = user_id u, fr_to_user_id = user_id to_user,
                   fr_status = ''pending''\<rparr>]\<rparr>,
             \<lparr>fr_id = next_id (map fr_id (friend_requests d)),
               fr_from_user_id = user_id u, fr_to_user_id = user_id to_user,
               fr_status = ''pending''\<rparr>)) \<and>
   (\<forall>d1 fr ua. send_friend_request d u name = Inr (d1, fr) \<longrightarrow>
      get_user_by_username d (username u) = Some ua \<longrightarrow> user_id ua = user_id u \<longrightarrow>
      send_friend_request d1 to_user (username u) =
        Inl (HTTPException 400 ''Request already pending''))"
  (is "_ \<longrightarrow> ?concl")
proof (rule impI)
  assume t: "get_user_by_username d name = Some to_user"
  have a: "user_id to_user = user_id u \<longrightarrow>
      (\<exists>detail. send_friend_request d u name = Inl (HTTPException 400 detail))"
    using send_conflict[OF t] by blast
  have b: "(\<exists>f\<in>set (friendships d). fs_user_id f = min (user_id u) (user_id to_user) \<and>
                             fs_friend_id f = max (user_id u) (user_id to_user)) \<longrightarrow>
      (\<exists>detail. send_friend_request d u name = Inl (HTTPException 400 detail))"
    using send_conflict[OF t] by blast
  have c: "(\<exists>fr\<in>set (friend_requests d). fr_status fr = ''pending'' \<and>
       ((fr_from_user_id fr = user_id u \<and> fr_to_user_id fr = user_id to_user) \<or>
        (fr_from_user_id fr = user_id to_user \<and> fr_to_user_id fr = user_id u))) \<longrightarrow>
      (\<exists>detail. send_friend_request d u name = Inl (HTTPException 400 detail))"
    using send_conflict[OF t] by blast
  have e: "user_id to_user \<noteq> user_id u \<and>
    \<not> (\<exists>f\<in>set (friendships d). fs_user_id f = min (user_id u) (user_id to_user) \<and>
                               fs_friend_id f = max (user_id u) (user_id to_user)) \<and>
    \<not> (\<exists>fr\<in>set (friend_requests d). fr_status fr = ''pending'' \<and>
         ((fr_from_user_id fr = user_id u \<and> fr_to_user_id fr = user_id to_user) \<or>
          (fr_from_user_id fr = user_id to_user \<and> fr_to_user_id fr = user_id u))) \<longrightarrow>
      send_friend_request d u name =
        Inr (d\<lparr>friend_requests := friend_requests d @
                 [\<lparr>fr_id = next_id (map fr_id (friend_requests d)),
                   fr_from_user_id = user_id u, fr_to_user_id = user_id to_user,
                   fr_status = ''pending''\<rparr>]\<rparr>,
             \<lparr>fr_id = next_id (map fr_id (friend_requests d)),
               fr_from_user_id = user_id u, fr_to_user_id = user_id to_user,
               fr_status = ''pending''\<rparr>)"
    using send_ok[OF t] by blast
  have f: "\<forall>d1 fr ua. send_friend_request d u name = Inr (d1, fr) \<longrightarrow>
      get_user_by_username d (username u) = Some ua \<longrightarrow> user_id ua = user_id u \<longrightarrow>
      send_friend_request d1 to_user (username u) =
        Inl (HTTPException 400 ''Request already pending'')"
    using send_then_reverse[OF t] by blast
  show ?concl by (rule conjI[OF a conjI[OF b conjI[OF c conjI[OF e f]]]])
qed

theorem send_friend_request_conflicts_witness:
  "get_user_by_username friends_db ''bert'' = Some demo_friend \<and>
   send_friend_request friends_db demo_user ''bert'' =
     Inr (pending_db, \<lparr>fr_id = 1, fr_from_user_id = 1, fr_to_user_id = 2, fr_status = ''pending''\<rparr>) \<and>
   send_friend_request pending_db demo_friend ''anna'' =
     Inl (HTTPException 400 ''Request already pending'') \<and>
   (\<exists>detail. send_friend_request friends_db demo_user ''anna'' = Inl (HTTPException 400 detail)) \<and>
   (\<exists>detail. send_friend_request pending_db demo_user ''bert'' = Inl (HTTPException 400 detail)) \<and>
   (\<exists>detail. send_friend_request accepted_db demo_friend ''anna'' = Inl (HTTPException 400 detail))"
proof -
  note t1 = send_friend_request_conflicts[of friends_db "''bert''" demo_friend demo_user]
  note t2 = send_friend_request_conflicts[of friends_db "''anna''" demo_user demo_user]
  note t3 = send_friend_request_conflicts[of pending_db "''bert''" demo_friend demo_user]
  note t4 = send_friend_request_conflicts[of accepted_db "''anna''" demo_user demo_friend]
  have h1: "get_user_by_username friends_db ''bert'' = Some demo_friend"
    by (simp add: friend_defs)
  have h2: "get_user_by_username friends_db ''anna'' = Some demo_user"
    by (simp add: friend_defs)
  have h3: "get_user_by_username pending_db ''bert'' = Some demo_friend"
    by (simp add: friend_defs)
  have h4: "get_user_by_username accepted_db ''anna'' = Some demo_user"
    by (simp add: friend_defs)
  have c1: "send_friend_request friends_db demo_user ''bert'' =
     Inr (pending_db, \<lparr>fr_id = 1, fr_from_user_id = 1, fr_to_user_id = 2, fr_status = ''pending''\<rparr>)"
    using t1 h1 by (simp add: friend_defs next_id_def)
  have c2: "send_friend_request pending_db demo_friend ''anna'' =
     Inl (HTTPException 400 ''Request already pending'')"
    using t1 h1 c1 h2 by (simp add: demo_user_def)
  have c3: "\<exists>detail. send_friend_request friends_db demo_user ''anna'' = Inl (HTTPException 400 detail)"
    using t2 h2 by simp
  have c4: "\<exists>detail. send_friend_request pending_db demo_user ''bert'' = Inl (HTTPException 400 detail)"
    using t3 h3 by (simp add: friend_defs)
  have c5: "\<exists>detail. send_friend_request accepted_db demo_friend ''anna'' = Inl (HTTPException 400 detail)"
    using t4 h4 by (simp add: friend_defs)
  from h1 c1 c2 c3 c4 c5 show ?thesis by blast
qed


section \<open>Accepting a friend request\<close>












section \<open>Forking a program\<close>

lemma next_id_snoc: "next_id (ids @ [next_id ids]) = Suc (next_id ids)"
  by (simp add: next_id_def max_def)

lemma next_id_snoc_le: "next_id ids \<le> next_id (ids @ [x])"
  by (simp add: next_id_def)

lemma copy_exercise_loop:
  "\<exists>new. fst (fold (copy_exercise u) exs (d, m)) = d\<lparr>exercises := exercises d @ new\<rparr> \<and>
     length new = length exs \<and>
     (\<forall>i<length exs. new ! i = (exs ! i)\<lparr>ex_id := ex_id (new ! i), ex_owner_id := user_id u\<rparr> \<and>
                      next_id (map ex_id (exercises d)) \<le> ex_id (new ! i)) \<and>
     distinct (map ex_id new) \<and>
     (distinct (map ex_id exs) \<longrightarrow>
        (\<forall>i<length exs. snd (fold (copy_exercise u) exs (d, m)) (ex_id (exs ! i)) = Some (ex_id (new ! i)))) \<and>
     (\<forall>k. k \<notin> ex_id ` set exs \<longrightarrow> snd (fold (copy_exercise u) exs (d, m)) k = m k)"
proof (induction exs arbitrary: d m)
  case Nil
  show ?case by (rule exI[of _ "[]"]) simp
next
  case (Cons e es)
  let ?b = "next_id (map ex_id (exercises d))"
  let ?n = "\<lparr>ex_id = ?b, ex_owner_id = user_id u, ex_name = ex_name e,
             ex_muscle_group = ex_muscle_group e, ex_type = ex_type e,
             ex_equipment = ex_equipment e, ex_notes = ex_notes e\<rparr>"
  let ?d1 = "d\<lparr>exercises := exercises d @ [?n]\<rparr>"
  let ?m1 = "m(ex_id e \<mapsto> ?b)"
  let ?res = "fold (copy_exercise u) es (?d1, ?m1)"
  have step: "copy_exercise u e (d, m) = (?d1, ?m1)"
    by (simp add: copy_exercise_def Let_def)
  have b1: "next_id (map ex_id (exercises ?d1)) = Suc ?b"
    by (simp add: next_id_snoc)
  from Cons.IH[of ?d1 ?m1] obtain new where
    d': "fst ?res = ?d1\<lparr>exercises := exercises ?d1 @ new\<rparr>"
    and len: "length new = length es"
    and el: "\<forall>i<length es. new ! i = (es ! i)\<lparr>ex_id := ex_id (new ! i), ex_owner_id := user_id u\<rparr> \<and>
                      next_id (map ex_id (exercises ?d1)) \<le> ex_id (new ! i)"
    and dist: "distinct (map ex_id new)"
    and mp: "distinct (map ex_id es) \<longrightarrow>
        (\<forall>i<length es. snd ?res (ex_id (es ! i)) = Some (ex_id (new ! i)))"
    and keep: "\<forall>k. k \<notin> ex_id ` set es \<longrightarrow> snd ?res k = ?m1 k"
    by blast
  have ge: "\<forall>x\<in>set new. Suc ?b \<le> ex_id x"
    using el len b1 by (metis in_set_conv_nth)
  have n_eq: "?n = e\<lparr>ex_id := ?b, ex_owner_id := user_id u\<rparr>" by simp
  show ?case
  proof (rule exI[of _ "?n # new"], intro conjI)
    show "fst (fold (copy_exercise u) (e # es) (d, m)) = d\<lparr>exercises := exercises d @ ?n # new\<rparr>"
      using d' by (simp add: step)
    show "length (?n # new) = length (e # es)" using len by simp
    show "\<forall>i<length (e # es). (?n # new) ! i =
            ((e # es) ! i)\<lparr>ex_id := ex_id ((?n # new) ! i), ex_owner_id := user_id u\<rparr> \<and>
            ?b \<le> ex_id ((?n # new) ! i)"
    proof (intro allI impI)
      fix i assume "i < length (e # es)"
      then show "(?n # new) ! i =
            ((e # es) ! i)\<lparr>ex_id := ex_id ((?n # new) ! i), ex_owner_id := user_id u\<rparr> \<and>
            ?b \<le> ex_id ((?n # new) ! i)"
        using el b1 by (cases i) auto
    qed
    show "distinct (map ex_id (?n # new))" using dist ge by auto
    show "distinct (map ex_id (e # es)) \<longrightarrow>
        (\<forall>i<length (e # es). snd (fold (copy_exercise u) (e # es) (d, m)) (ex_id ((e # es) ! i)) =
            Some (ex_id ((?n # new) ! i)))"
    proof (intro allI impI)
      fix i assume ds: "distinct (map ex_id (e # es))" and i: "i < length (e # es)"
      show "snd (fold (copy_exercise u) (e # es) (d, m)) (ex_id ((e # es) ! i)) =
            Some (ex_id ((?n # new) ! i))"
      proof (cases i)
        case 0
        have "ex_id e \<notin> ex_id ` set es" using ds by auto
        then show ?thesis using keep 0 by (simp add: step)
      next
        case (Suc j)
        then show ?thesis using mp ds i by (simp add: step)
      qed
    qed
    show "\<forall>k. k \<notin> ex_id ` set (e # es) \<longrightarrow> snd (fold (copy_exercise u) (e # es) (d, m)) k = m k"
      using keep by (simp add: step)
  qed
qed


lemma copy_row_loop:
  assumes "\<forall>r\<in>set rows. \<exists>k. m (row_exercise_id r) = Some k \<and> k \<noteq> 0"
  shows "\<exists>new. fold (copy_row m new_tpl) rows (d, acc) =
            (d\<lparr>template_exercises := template_exercises d @ new\<rparr>, acc @ new) \<and>
          list_all2 (\<lambda>r n. m (row_exercise_id r) = Some (row_exercise_id n)) rows new"
  using assms
proof (induction rows arbitrary: d acc)
  case Nil
  show ?case by (rule exI[of _ "[]"]) simp
next
  case (Cons r rows)
  from Cons.prems obtain k where k: "m (row_exercise_id r) = Some k" "k \<noteq> 0" by auto
  let ?n = "\<lparr>row_id = next_id (map row_id (template_exercises d)),
             row_template_id = tpl_id new_tpl, row_exercise_id = k,
             row_planned_sets = row_planned_sets r, row_reps = row_reps r,
             row_planned_weight = row_planned_weight r, row_rpe = row_rpe r,
             row_rest = row_rest r, row_comment = row_comment r\<rparr>"
  let ?d1 = "d\<lparr>template_exercises := template_exercises d @ [?n]\<rparr>"
  have step: "copy_row m new_tpl r (d, acc) = (?d1, acc @ [?n])"
    using k by (simp add: copy_row_def Let_def)
  from Cons.IH[of ?d1 "acc @ [?n]"] Cons.prems obtain new where
    res: "fold (copy_row m new_tpl) rows (?d1, acc @ [?n]) =
            (?d1\<lparr>template_exercises := template_exercises ?d1 @ new\<rparr>, (acc @ [?n]) @ new)"
    and rel: "list_all2 (\<lambda>r n. m (row_exercise_id r) = Some (row_exercise_id n)) rows new"
    by auto
  show ?case
    by (rule exI[of _ "?n # new"]) (use res rel k in \<open>simp add: step\<close>)
qed

lemma copy_template_loop:
  assumes "\<forall>tpl\<in>set templates.
             \<forall>r\<in>set (case rows_by_tpl (tpl_id tpl) of None \<Rightarrow> [] | Some rs \<Rightarrow> rs).
               \<exists>k. m (row_exercise_id r) = Some k \<and> k \<noteq> 0"
  shows "\<exists>new_tpls new acc'.
           fold (copy_template u np rows_by_tpl m) templates (d, acc) =
             (d\<lparr>workout_templates := workout_templates d @ new_tpls,
                template_exercises := template_exercises d @ new\<rparr>, acc') \<and>
           list_all2 (\<lambda>r n. m (row_exercise_id r) = Some (row_exercise_id n))
             (concat (map (\<lambda>tpl. case rows_by_tpl (tpl_id tpl) of None \<Rightarrow> [] | Some rs \<Rightarrow> rs)
                        templates)) new"
  using assms
proof (induction templates arbitrary: d acc)
  case Nil
  show ?case by (rule exI[of _ "[]"], rule exI[of _ "[]"]) simp
next
  case (Cons tpl templates)
  let ?rows = "case rows_by_tpl (tpl_id tpl) of None \<Rightarrow> [] | Some rs \<Rightarrow> rs"
  let ?nt = "\<lparr>tpl_id = next_id (map tpl_id (workout_templates d)),
              tpl_program_id = pr_id np, tpl_owner_id = user_id u, tpl_name = tpl_name tpl\<rparr>"
  let ?d1 = "d\<lparr>workout_templates := workout_templates d @ [?nt]\<rparr>"
  have "\<forall>r\<in>set ?rows. \<exists>k. m (row_exercise_id r) = Some k \<and> k \<noteq> 0"
    using Cons.prems by simp
  from copy_row_loop[OF this, of ?nt ?d1 "[]"] obtain new1 where
    rows: "fold (copy_row m ?nt) ?rows (?d1, []) =
            (?d1\<lparr>template_exercises := template_exercises ?d1 @ new1\<rparr>, [] @ new1)"
    and rel1: "list_all2 (\<lambda>r n. m (row_exercise_id r) = Some (row_exercise_id n)) ?rows new1"
    by blast
  let ?d2 = "?d1\<lparr>template_exercises := template_exercises ?d1 @ new1\<rparr>"
  have step: "copy_template u np rows_by_tpl m tpl (d, acc) = (?d2, acc @ [(?nt, new1)])"
    using rows by (simp add: copy_template_def Let_def)
  from Cons.IH[of ?d2 "acc @ [(?nt, new1)]"] Cons.prems obtain new_tpls new2 acc' where
    res: "fold (copy_template u np rows_by_tpl m) templates (?d2, acc @ [(?nt, new1)]) =
             (?d2\<lparr>workout_templates := workout_templates ?d2 @ new_tpls,
                  template_exercises := template_exercises ?d2 @ new2\<rparr>, acc')"
    and rel2: "list_all2 (\<lambda>r n. m (row_exercise_id r) = Some (row_exercise_id n))
             (concat (map (\<lambda>tpl. case rows_by_tpl (tpl_id tpl) of None \<Rightarrow> [] | Some rs \<Rightarrow> rs)
                        templates)) new2"
    by auto
  show ?case
    apply (rule exI[of _ "?nt # new_tpls"], rule exI[of _ "new1 @ new2"], rule exI[of _ acc'])
    using res rel1 rel2 by (simp add: step list_all2_appendI)
qed

lemma rows_by_tpl_lookup:
  "tpl \<in> set templates \<Longrightarrow>
   fold (\<lambda>tpl m. m(tpl_id tpl \<mapsto> f (tpl_id tpl))) templates m0 (tpl_id tpl) = Some (f (tpl_id tpl))"
proof (induction templates arbitrary: m0 rule: rev_induct)
  case Nil
  then show ?case by simp
next
  case (snoc t templates)
  then show ?case by (cases "tpl_id t = tpl_id tpl") auto
qed


lemmas fork_defs = fork_db_def empty_db_def demo_user_def demo_friend_def source_rows_def

lemmas fork_eval = copy_program_from_public_def copy_exercise_def copy_template_def copy_row_def
  next_id_def Let_def

text \<open>
  C5. Let the source program exist and be public (or owned by the caller), let exercise ids
  be unique in the Exercise table, and let every exercise referenced by a row of the source
  exist. Then \<open>copy_program_from_public\<close> succeeds; it appends one program, owned by the
  caller, with visibility \<open>private\<close>, \<open>is_public\<close> false and version 1; it appends M new
  exercises, M the number of distinct exercise ids referenced by the N rows of the source,
  all owned by the caller and with ids that no exercise had before; and it appends N new
  rows. The exercise id of the i-th new row is what the remap table gives for the exercise
  id of the i-th source row: the id of a new exercise, not of an original one. The remap
  table sends every referenced exercise to the id of its copy, which has the same fields
  but for id and owner.
\<close>

theorem fork_copies_exercises_and_remaps_rows:
  assumes src: "find (\<lambda>p. pr_id p = program_id) (programs d) = Some source"
    and allowed: "pr_is_public source \<or> pr_owner_id source = user_id u"
    and pk: "distinct (map ex_id (exercises d))"
    and refs: "\<forall>r\<in>set (source_rows d program_id). row_exercise_id r \<in> ex_id ` set (exercises d)"
  shows "\<exists>d' new_program new_templates new_exs new_rows remap.
     copy_program_from_public d u program_id = Inr (d', new_program, new_templates) \<and>
     programs d' = programs d @ [new_program] \<and>
     pr_owner_id new_program = user_id u \<and> pr_visibility new_program = ''private'' \<and>
     \<not> pr_is_public new_program \<and> pr_version new_program = 1 \<and>
     exercises d' = exercises d @ new_exs \<and>
     length new_exs = card (row_exercise_id ` set (source_rows d program_id)) \<and>
     distinct (map ex_id new_exs) \<and>
     (\<forall>e\<in>set new_exs. ex_owner_id e = user_id u \<and> ex_id e \<notin> ex_id ` set (exercises d)) \<and>
     template_exercises d' = template_exercises d @ new_rows \<and>
     length new_rows = length (source_rows d program_id) \<and>
     (\<forall>i<length new_rows.
        remap (row_exercise_id (source_rows d program_id ! i)) = Some (row_exercise_id (new_rows ! i)) \<and>
        row_exercise_id (new_rows ! i) \<in> ex_id ` set new_exs \<and>
        row_exercise_id (new_rows ! i) \<notin> ex_id ` set (exercises d)) \<and>
     (\<forall>e\<in>set (exercises d). ex_id e \<in> row_exercise_id ` set (source_rows d program_id) \<longrightarrow>
        (\<exists>c\<in>set new_exs. remap (ex_id e) = Some (ex_id c) \<and>
                          c = e\<lparr>ex_id := ex_id c, ex_owner_id := user_id u\<rparr>))"
proof -
  have pid: "pr_id source = program_id" using src by (auto simp: find_Some_iff)
  let ?T = "template_exercises d"
  let ?templates = "filter (\<lambda>t. tpl_program_id t = program_id) (workout_templates d)"
  let ?rows_of = "\<lambda>tpl. filter (\<lambda>r. row_template_id r = tpl_id tpl) ?T"
  let ?rbt = "fold (\<lambda>tpl m. m(tpl_id tpl \<mapsto> ?rows_of tpl)) ?templates Map.empty"
  let ?src = "source_rows d program_id"
  let ?ids = "map row_exercise_id ?src"
  let ?exs = "filter (\<lambda>e. ex_id e \<in> set ?ids) (exercises d)"
  let ?np = "\<lparr>pr_id = next_id (map pr_id (programs d)), pr_owner_id = user_id u,
              pr_name = (if pr_owner_id source \<noteq> user_id u then pr_name source @ '' (kopia)''
                         else pr_name source),
              pr_description = pr_description source, pr_start_date = pr_start_date source,
              pr_end_date = pr_end_date source, pr_status = pr_status source, pr_version = 1,
              pr_visibility = ''private'', pr_is_public = False\<rparr>"
  let ?d1 = "d\<lparr>programs := programs d @ [?np]\<rparr>"
  let ?exl = "fold (copy_exercise u) ?exs (?d1, Map.empty)"
  let ?m = "snd ?exl"
  let ?tl = "fold (copy_template u ?np ?rbt ?m) ?templates (fst ?exl, [])"
  have src_rows: "concat (map ?rows_of ?templates) = ?src" by (simp add: source_rows_def)
  have exs_if: "(if ?ids \<noteq> [] then ?exs else []) = ?exs"
    by (cases "?ids = []") simp_all
  have res: "copy_program_from_public d u program_id = Inr (fst ?tl, ?np, snd ?tl)"
  proof -
    have na: "\<not> (pr_owner_id source \<noteq> user_id u \<and> \<not> pr_is_public source)"
      using allowed by auto
    show ?thesis
      apply (simp only: copy_program_from_public_def src option.case if_not_P[OF na] Let_def pid)
      apply (simp only: source_rows_def[symmetric] exs_if case_prod_beta)
      done
  qed
  \<comment> \<open>the exercises to copy\<close>
  have exs_ids: "set (map ex_id ?exs) = set ?ids"
  proof (intro equalityI subsetI)
    fix x assume "x \<in> set (map ex_id ?exs)"
    then show "x \<in> set ?ids" by auto
  next
    fix x assume x: "x \<in> set ?ids"
    then obtain r where "r \<in> set ?src" "row_exercise_id r = x" by auto
    with refs obtain e where e: "e \<in> set (exercises d)" "ex_id e = x" by force
    with x have "e \<in> set ?exs" by simp
    with e(2) show "x \<in> set (map ex_id ?exs)" by force
  qed
  have exs_dist: "distinct (map ex_id ?exs)" using pk by (rule distinct_map_filter)
  have exs_len: "length ?exs = card (row_exercise_id ` set ?src)"
    using distinct_card[OF exs_dist] exs_ids by simp
  \<comment> \<open>the exercise loop\<close>
  from copy_exercise_loop[of u ?exs ?d1 Map.empty] obtain new_exs where
    e1: "fst ?exl = ?d1\<lparr>exercises := exercises ?d1 @ new_exs\<rparr>"
    and e2: "length new_exs = length ?exs"
    and e3: "\<forall>i<length ?exs. new_exs ! i = (?exs ! i)\<lparr>ex_id := ex_id (new_exs ! i), ex_owner_id := user_id u\<rparr> \<and>
                      next_id (map ex_id (exercises ?d1)) \<le> ex_id (new_exs ! i)"
    and e4: "distinct (map ex_id new_exs)"
    and e5: "distinct (map ex_id ?exs) \<longrightarrow>
               (\<forall>i<length ?exs. ?m (ex_id (?exs ! i)) = Some (ex_id (new_exs ! i)))"
    by blast
  have new_owner: "\<forall>e\<in>set new_exs. ex_owner_id e = user_id u \<and> ex_id e \<notin> ex_id ` set (exercises d)"
  proof
    fix e assume "e \<in> set new_exs"
    then obtain i where i: "i < length ?exs" "new_exs ! i = e"
      using e2 by (auto simp: in_set_conv_nth)
    from e3 i have a: "e = (?exs ! i)\<lparr>ex_id := ex_id e, ex_owner_id := user_id u\<rparr>"
      and b: "next_id (map ex_id (exercises d)) \<le> ex_id e" by auto
    have "ex_owner_id e = user_id u" by (subst a) simp
    moreover have "ex_id e \<notin> ex_id ` set (exercises d)"
      using b next_id_fresh[of "ex_id e" "map ex_id (exercises d)"] by auto
    ultimately show "ex_owner_id e = user_id u \<and> ex_id e \<notin> ex_id ` set (exercises d)" ..
  qed
  have mapped: "\<exists>c\<in>set new_exs. ?m (ex_id e) = Some (ex_id c) \<and>
                  c = e\<lparr>ex_id := ex_id c, ex_owner_id := user_id u\<rparr>"
    if "e \<in> set (exercises d)" "ex_id e \<in> set ?ids" for e
  proof -
    from that have "e \<in> set ?exs" by simp
    then obtain i where i: "i < length ?exs" "?exs ! i = e"
      unfolding in_set_conv_nth by blast
    with e3 e5 exs_dist e2 show ?thesis by (intro bexI[of _ "new_exs ! i"]) auto
  qed
  have mapped_id: "\<exists>k. ?m x = Some k \<and> k \<noteq> 0 \<and> k \<in> ex_id ` set new_exs \<and>
                     k \<notin> ex_id ` set (exercises d)"
    if "x \<in> set ?ids" for x
  proof -
    from that refs obtain e where e: "e \<in> set (exercises d)" "ex_id e = x" by auto
    from mapped[OF e(1)] that e(2) obtain c where c: "c \<in> set new_exs" "?m x = Some (ex_id c)"
      by auto
    have "0 < next_id (map ex_id (exercises d))" by (rule next_id_pos)
    moreover from c(1) e2 e3 have "next_id (map ex_id (exercises d)) \<le> ex_id c"
      by (auto simp: in_set_conv_nth)
    ultimately have "ex_id c \<noteq> 0" by simp
    with c new_owner show ?thesis by auto
  qed
  \<comment> \<open>the template loop\<close>
  have rbt: "(case ?rbt (tpl_id tpl) of None \<Rightarrow> [] | Some rs \<Rightarrow> rs) = ?rows_of tpl"
    if "tpl \<in> set ?templates" for tpl
    using rows_by_tpl_lookup[OF that, of "\<lambda>tid. filter (\<lambda>r. row_template_id r = tid) ?T" Map.empty]
    by simp
  have rows_eq: "concat (map (\<lambda>tpl. case ?rbt (tpl_id tpl) of None \<Rightarrow> [] | Some rs \<Rightarrow> rs) ?templates)
                  = ?src"
    unfolding src_rows[symmetric] by (rule arg_cong[where f = concat], rule map_cong[OF refl]) (rule rbt)
  have pre: "\<forall>tpl\<in>set ?templates.
               \<forall>r\<in>set (case ?rbt (tpl_id tpl) of None \<Rightarrow> [] | Some rs \<Rightarrow> rs).
                 \<exists>k. ?m (row_exercise_id r) = Some k \<and> k \<noteq> 0"
  proof (intro ballI)
    fix tpl r
    assume t: "tpl \<in> set ?templates"
      and "r \<in> set (case ?rbt (tpl_id tpl) of None \<Rightarrow> [] | Some rs \<Rightarrow> rs)"
    then have "r \<in> set (?rows_of tpl)" by (simp only: rbt[OF t])
    with t have "r \<in> set ?src" unfolding source_rows_def by auto
    then have "row_exercise_id r \<in> set ?ids" by simp
    from mapped_id[OF this] show "\<exists>k. ?m (row_exercise_id r) = Some k \<and> k \<noteq> 0" by blast
  qed
  from copy_template_loop[OF pre, of u ?np "fst ?exl" "[]"] obtain new_tpls new_rows acc' where
    t1: "?tl = ((fst ?exl)\<lparr>workout_templates := workout_templates (fst ?exl) @ new_tpls,
                          template_exercises := template_exercises (fst ?exl) @ new_rows\<rparr>, acc')"
    and t2: "list_all2 (\<lambda>r n. ?m (row_exercise_id r) = Some (row_exercise_id n)) ?src new_rows"
    unfolding rows_eq by blast
  have len_rows: "length new_rows = length ?src" using t2 by (simp add: list_all2_lengthD)
  have row_i: "?m (row_exercise_id (?src ! i)) = Some (row_exercise_id (new_rows ! i)) \<and>
        row_exercise_id (new_rows ! i) \<in> ex_id ` set new_exs \<and>
        row_exercise_id (new_rows ! i) \<notin> ex_id ` set (exercises d)"
    if "i < length new_rows" for i
  proof -
    from that len_rows have i: "i < length ?src" by simp
    with t2 have a: "?m (row_exercise_id (?src ! i)) = Some (row_exercise_id (new_rows ! i))"
      by (simp add: list_all2_conv_all_nth)
    from i have "row_exercise_id (?src ! i) \<in> set ?ids" by simp
    from mapped_id[OF this] a show ?thesis by auto
  qed
  have d'_progs: "programs (fst ?tl) = programs d @ [?np]"
    by (simp only: t1 fst_conv, simp only: e1, simp)
  have d'_exs: "exercises (fst ?tl) = exercises d @ new_exs"
    by (simp only: t1 fst_conv, simp only: e1, simp)
  have d'_rows: "template_exercises (fst ?tl) = template_exercises d @ new_rows"
    by (simp only: t1 fst_conv, simp only: e1, simp)
  have mapped': "\<forall>e\<in>set (exercises d). ex_id e \<in> row_exercise_id ` set ?src \<longrightarrow>
        (\<exists>c\<in>set new_exs. ?m (ex_id e) = Some (ex_id c) \<and>
                          c = e\<lparr>ex_id := ex_id c, ex_owner_id := user_id u\<rparr>)"
    using mapped by simp
  have n1: "pr_owner_id ?np = user_id u" and n2: "pr_visibility ?np = ''private''"
    and n3: "\<not> pr_is_public ?np" and n4: "pr_version ?np = 1"
    by simp_all
  have exs_card: "length new_exs = card (row_exercise_id ` set ?src)"
    using e2 exs_len by simp
  have rows_all: "\<forall>i<length new_rows.
        ?m (row_exercise_id (?src ! i)) = Some (row_exercise_id (new_rows ! i)) \<and>
        row_exercise_id (new_rows ! i) \<in> ex_id ` set new_exs \<and>
        row_exercise_id (new_rows ! i) \<notin> ex_id ` set (exercises d)"
    using row_i by blast
  show ?thesis
    apply (rule exI[of _ "fst ?tl"], rule exI[of _ ?np], rule exI[of _ "snd ?tl"])
    apply (rule exI[of _ new_exs], rule exI[of _ new_rows], rule exI[of _ ?m])
    apply (intro conjI)
    apply (fact res d'_progs n1 n2 n3 n4 d'_exs exs_card e4 new_owner d'_rows len_rows rows_all mapped')+
    done
qed


theorem fork_copies_exercises_and_remaps_rows_witness:
  "find (\<lambda>p. pr_id p = 1) (programs fork_db) =
     Some \<lparr>pr_id = 1, pr_owner_id = 2, pr_name = ''Base'', pr_description = [],
           pr_start_date = [], pr_end_date = [], pr_status = ''archived'',
           pr_version = 3, pr_visibility = ''public'', pr_is_public = True\<rparr> \<and>
   distinct (map ex_id (exercises fork_db)) \<and>
   row_exercise_id ` set (source_rows fork_db 1) \<subseteq> ex_id ` set (exercises fork_db) \<and>
   length (source_rows fork_db 1) = 3 \<and>
   card (row_exercise_id ` set (source_rows fork_db 1)) = 2 \<and>
   (\<exists>d' new_program new_templates new_exs new_rows remap.
     copy_program_from_public fork_db demo_user 1 = Inr (d', new_program, new_templates) \<and>
     programs d' = programs fork_db @ [new_program] \<and>
     pr_owner_id new_program = user_id demo_user \<and> pr_visibility new_program = ''private'' \<and>
     \<not> pr_is_public new_program \<and> pr_version new_program = 1 \<and>
     exercises d' = exercises fork_db @ new_exs \<and>
     length new_exs = card (row_exercise_id ` set (source_rows fork_db 1)) \<and>
     distinct (map ex_id new_exs) \<and>
     (\<forall>e\<in>set new_exs. ex_owner_id e = user_id demo_user \<and> ex_id e \<notin> ex_id ` set (exercises fork_db)) \<and>
     template_exercises d' = template_exercises fork_db @ new_rows \<and>
     length new_rows = length (source_rows fork_db 1) \<and>
     (\<forall>i<length new_rows.
        remap (row_exercise_id (source_rows fork_db 1 ! i)) = Some (row_exercise_id (new_rows ! i)) \<and>
        row_exercise_id (new_rows ! i) \<in> ex_id ` set new_exs \<and>
        row_exercise_id (new_rows ! i) \<notin> ex_id ` set (exercises fork_db)) \<and>
     (\<forall>e\<in>set (exercises fork_db). ex_id e \<in> row_exercise_id ` set (source_rows fork_db 1) \<longrightarrow>
        (\<exists>c\<in>set new_exs. remap (ex_id e) = Some (ex_id c) \<and>
                          c = e\<lparr>ex_id := ex_id c, ex_owner_id := user_id demo_user\<rparr>)))"
proof -
  have h1: "find (\<lambda>p. pr_id p = 1) (programs fork_db) =
     Some \<lparr>pr_id = 1, pr_owner_id = 2, pr_name = ''Base'', pr_description = [],
           pr_start_date = [], pr_end_date = [], pr_status = ''archived'',
           pr_version = 3, pr_visibility = ''public'', pr_is_public = True\<rparr>"
    by (simp add: fork_defs)
  have h2: "pr_is_public \<lparr>pr_id = 1, pr_owner_id = 2, pr_name = ''Base'', pr_description = [],
           pr_start_date = [], pr_end_date = [], pr_status = ''archived'',
           pr_version = 3, pr_visibility = ''public'', pr_is_public = True\<rparr> \<or>
        pr_owner_id \<lparr>pr_id = 1, pr_owner_id = 2, pr_name = ''Base'', pr_description = [],
           pr_start_date = [], pr_end_date = [], pr_status = ''archived'',
           pr_version = 3, pr_visibility = ''public'', pr_is_public = True\<rparr> = user_id demo_user"
    by simp
  have h3: "distinct (map ex_id (exercises fork_db))" by (simp add: fork_defs)
  have h4: "\<forall>r\<in>set (source_rows fork_db 1). row_exercise_id r \<in> ex_id ` set (exercises fork_db)"
    by (simp add: fork_defs)
  have n: "length (source_rows fork_db 1) = 3" by (simp add: fork_defs)
  have m: "card (row_exercise_id ` set (source_rows fork_db 1)) = 2" by (simp add: fork_defs)
  note t = fork_copies_exercises_and_remaps_rows[OF h1 h2 h3 h4]
  have h4': "row_exercise_id ` set (source_rows fork_db 1) \<subseteq> ex_id ` set (exercises fork_db)"
    using h4 by blast
  show ?thesis by (rule conjI[OF h1 conjI[OF h3 conjI[OF h4' conjI[OF n conjI[OF m t]]]]])
qed

text \<open>
  The run on \<open>fork_db\<close>: three rows referencing exercises 7, 7 and 8 give the new
  exercises 9 and 10 and three new rows referencing 9, 9 and 10.
\<close>

lemma fork_db_run:
  "(case copy_program_from_public fork_db demo_user 1 of
      Inl e \<Rightarrow> False
    | Inr (d', p, ts) \<Rightarrow>
        map (\<lambda>e. (ex_id e, ex_owner_id e, ex_name e)) (exercises d') =
          [(7, 2, ''Bench''), (8, 2, ''Squat''), (9, 1, ''Bench''), (10, 1, ''Squat'')] \<and>
        map (\<lambda>r. (row_id r, row_template_id r, row_exercise_id r)) (template_exercises d') =
          [(1, 1, 7), (2, 1, 7), (3, 1, 8), (4, 2, 9), (5, 2, 9), (6, 2, 10)] \<and>
        (pr_owner_id p, pr_name p, pr_status p, pr_version p, pr_visibility p, pr_is_public p) =
          (1, ''Base (kopia)'', ''archived'', 1, ''private'', False))"
  by (simp add: fork_eval fork_defs eval_nat_numeral)

text \<open>
  Called by the owner of the program, the endpoint does the same: the exercises are copied
  again under the same owner, and the status of the source is kept.
\<close>

lemma fork_by_owner_duplicates_exercises:
  "(case copy_program_from_public fork_db demo_friend 1 of
      Inl e \<Rightarrow> False
    | Inr (d', p, ts) \<Rightarrow>
        map (\<lambda>e. (ex_id e, ex_owner_id e, ex_name e)) (exercises d') =
          [(7, 2, ''Bench''), (8, 2, ''Squat''), (9, 2, ''Bench''), (10, 2, ''Squat'')] \<and>
        map (\<lambda>r. (row_id r, row_template_id r, row_exercise_id r)) (template_exercises d') =
          [(1, 1, 7), (2, 1, 7), (3, 1, 8), (4, 2, 9), (5, 2, 9), (6, 2, 10)] \<and>
        (pr_owner_id p, pr_name p, pr_status p, pr_version p, pr_visibility p, pr_is_public p) =
          (2, ''Base'', ''archived'', 1, ''private'', False))"
  by (simp add: fork_eval fork_defs eval_nat_numeral)

text \<open>
  Without the first exercise in the table (deleting an exercise leaves the rows that
  reference it), the two rows that reference it are not copied: one new row for three.
\<close>

lemma fork_drops_rows_of_missing_exercises:
  "(case copy_program_from_public (fork_db\<lparr>exercises := tl (exercises fork_db)\<rparr>) demo_user 1 of
      Inl e \<Rightarrow> False
    | Inr (d', p, ts) \<Rightarrow>
        map (\<lambda>e. (ex_id e, ex_owner_id e, ex_name e)) (exercises d') =
          [(8, 2, ''Squat''), (9, 1, ''Squat'')] \<and>
        map (\<lambda>r. (row_id r, row_template_id r, row_exercise_id r)) (template_exercises d') =
          [(1, 1, 7), (2, 1, 7), (3, 1, 8), (4, 2, 9)])"
  by (simp add: fork_eval fork_defs eval_nat_numeral)

section \<open>Copying a program in the file store\<close>

lemma copy_templates_skip:
  "\<forall>j. i \<le> j \<and> j < length tpls \<longrightarrow> ft_program_id (tpls ! j) \<noteq> pid \<Longrightarrow>
   copy_templates gen pid npid i n tpls = Some (n, tpls)"
proof (induction "length tpls - i" arbitrary: i)
  case 0
  then show ?case by (subst copy_templates.simps) simp
next
  case (Suc k)
  then have "i < length tpls" "ft_program_id (tpls ! i) \<noteq> pid" by auto
  moreover have "copy_templates gen pid npid (Suc i) n tpls = Some (n, tpls)"
    using Suc by (intro Suc.hyps(1)) auto
  ultimately show ?case by (subst copy_templates.simps) simp
qed

lemma copy_templates_run:
  assumes "npid \<noteq> pid" and "\<forall>t\<in>set app. ft_program_id t = npid"
  shows "copy_templates gen pid npid (length pre) n (pre @ rest @ app) =
           Some (counter_after n (filter (\<lambda>t. ft_program_id t = pid) rest),
                 pre @ rest @ app @ copies_of gen npid n (filter (\<lambda>t. ft_program_id t = pid) rest))"
  using assms(2)
proof (induction rest arbitrary: pre app n)
  case Nil
  have "\<forall>j. length pre \<le> j \<and> j < length (pre @ app) \<longrightarrow> ft_program_id ((pre @ app) ! j) \<noteq> pid"
    using Nil assms(1) by (auto simp: nth_append)
  from copy_templates_skip[OF this] show ?case by simp
next
  case (Cons t ts)
  have i: "length pre < length (pre @ (t # ts) @ app)" "(pre @ (t # ts) @ app) ! length pre = t"
    by simp_all
  show ?case
  proof (cases "ft_program_id t = pid")
    case False
    have "copy_templates gen pid npid (length (pre @ [t])) n ((pre @ [t]) @ ts @ app) =
           Some (counter_after n (filter (\<lambda>t. ft_program_id t = pid) ts),
                 (pre @ [t]) @ ts @ app @ copies_of gen npid n (filter (\<lambda>t. ft_program_id t = pid) ts))"
      by (rule Cons.IH) (rule Cons.prems)
    then show ?thesis using False i
      by (subst copy_templates.simps) simp
  next
    case True
    let ?new = "\<lparr>ft_id = gen n, ft_program_id = npid, ft_name = ft_name t,
                 ft_exercises = copy_rows gen (Suc n) (ft_exercises t)\<rparr>"
    have "copy_templates gen pid npid (length (pre @ [t])) (Suc n + length (ft_exercises t))
             ((pre @ [t]) @ ts @ (app @ [?new])) =
           Some (counter_after (Suc n + length (ft_exercises t)) (filter (\<lambda>t. ft_program_id t = pid) ts),
                 (pre @ [t]) @ ts @ (app @ [?new]) @
                   copies_of gen npid (Suc n + length (ft_exercises t)) (filter (\<lambda>t. ft_program_id t = pid) ts))"
      by (rule Cons.IH) (use Cons.prems in simp)
    then show ?thesis using True i
      by (subst copy_templates.simps) simp
  qed
qed

lemma copy_templates_result:
  "npid \<noteq> pid \<Longrightarrow>
   copy_templates gen pid npid 0 n tpls =
     Some (counter_after n (filter (\<lambda>t. ft_program_id t = pid) tpls),
           tpls @ copies_of gen npid n (filter (\<lambda>t. ft_program_id t = pid) tpls))"
  using copy_templates_run[of npid pid "[]" gen "[]" n tpls] by simp

lemma length_copies_of [simp]: "length (copies_of gen npid n ts) = length ts"
  by (induction ts arbitrary: n) auto

lemma length_copy_rows [simp]: "length (copy_rows gen n rows) = length rows"
  by (simp add: copy_rows_def)

lemma nth_copy_rows:
  "j < length rows \<Longrightarrow> copy_rows gen n rows ! j = (rows ! j)\<lparr>frow_id := gen (n + j)\<rparr>"
  by (simp add: copy_rows_def nth_enumerate_eq)

lemma map_frow_id_copy_rows:
  "map frow_id (copy_rows gen n rows) = map gen [n..<n + length rows]"
  by (rule nth_equalityI) (simp_all add: nth_copy_rows)

lemma counter_after_ge: "n \<le> counter_after n ts"
proof (induction ts arbitrary: n)
  case Nil
  then show ?case by simp
next
  case (Cons t ts)
  from Cons[of "Suc n + length (ft_exercises t)"] show ?case by simp
qed

lemma copies_of_nth:
  "i < length ts \<Longrightarrow>
   ft_program_id (copies_of gen npid n ts ! i) = npid \<and>
   ft_name (copies_of gen npid n ts ! i) = ft_name (ts ! i) \<and>
   length (ft_exercises (copies_of gen npid n ts ! i)) = length (ft_exercises (ts ! i)) \<and>
   (\<forall>j<length (ft_exercises (ts ! i)).
      \<exists>k. ft_exercises (copies_of gen npid n ts ! i) ! j = (ft_exercises (ts ! i) ! j)\<lparr>frow_id := gen k\<rparr>)"
proof (induction ts arbitrary: n i)
  case Nil
  then show ?case by simp
next
  case (Cons t ts)
  show ?case
  proof (cases i)
    case 0
    then show ?thesis by (auto simp: nth_copy_rows)
  next
    case (Suc i')
    then show ?thesis using Cons.IH[of i' "Suc n + length (ft_exercises t)"] Cons.prems by simp
  qed
qed

lemma copies_of_ids:
  "concat (map (\<lambda>t. ft_id t # map frow_id (ft_exercises t)) (copies_of gen npid n ts)) =
     map gen [n..<counter_after n ts]"
proof (induction ts arbitrary: n)
  case Nil
  then show ?case by simp
next
  case (Cons t ts)
  let ?m = "Suc n + length (ft_exercises t)"
  have le: "?m \<le> counter_after ?m ts" by (rule counter_after_ge)
  then obtain k where c: "counter_after ?m ts = ?m + k" using le_Suc_ex by blast
  have "[Suc n..<?m + k] = [Suc n..<?m] @ [?m..<?m + k]"
    by (rule upt_add_eq_append) simp
  moreover have "[n..<?m + k] = n # [Suc n..<?m + k]"
    by (rule upt_conv_Cons) simp
  ultimately have "[n..<counter_after ?m ts] = n # [Suc n..<?m] @ [?m..<counter_after ?m ts]"
    by (simp only: c)
  then show ?case using Cons.IH[of ?m] by (simp add: map_frow_id_copy_rows)
qed


lemma demo_gen_values:
  "demo_gen 0 = ''id0''" "demo_gen (Suc 0) = ''id1''" "demo_gen (Suc (Suc 0)) = ''id2''"
  by (simp_all add: demo_gen_def digit_char_def)

text \<open>
  When \<open>gen_id\<close> returns the id of the source program for the new program and the source
  has a template, the loop visits its own copies and never returns.
\<close>

lemma copy_templates_collision:
  assumes "copy_templates gen pid pid i n tpls = Some r"
  shows "\<not> (\<exists>j. i \<le> j \<and> j < length tpls \<and> ft_program_id (tpls ! j) = pid)"
proof -
  have "pid = pid \<longrightarrow> \<not> (\<exists>j. i \<le> j \<and> j < length tpls \<and> ft_program_id (tpls ! j) = pid)"
  proof (rule copy_templates.raw_induct[where
        P = "\<lambda>gen pid npid i n tpls r. npid = pid \<longrightarrow>
               \<not> (\<exists>j. i \<le> j \<and> j < length tpls \<and> ft_program_id (tpls ! j) = pid)"
        and gen = gen and program_id = pid and new_program_id = pid and i = i and n = n
        and tpls = tpls and y = r])
    show "copy_templates gen pid pid i n tpls = Some r" by (rule assms)
  next
    fix ct :: "(nat \<Rightarrow> string) \<Rightarrow> string \<Rightarrow> string \<Rightarrow> nat \<Rightarrow> nat \<Rightarrow> file_template list \<Rightarrow>
               (nat \<times> file_template list) option"
    fix gen pid npid i n tpls r
    assume IH: "\<And>g p q i n tpls y. ct g p q i n tpls = Some y \<Longrightarrow>
        q = p \<longrightarrow> \<not> (\<exists>j. i \<le> j \<and> j < length tpls \<and> ft_program_id (tpls ! j) = p)"
    assume step: "(if i < length tpls
        then if ft_program_id (tpls ! i) \<noteq> pid
             then ct gen pid npid (Suc i) n tpls
             else ct gen pid npid (Suc i) (Suc n + length (ft_exercises (tpls ! i)))
                    (tpls @ [\<lparr>ft_id = gen n, ft_program_id = npid, ft_name = ft_name (tpls ! i),
                               ft_exercises = copy_rows gen (Suc n) (ft_exercises (tpls ! i))\<rparr>])
        else Some (n, tpls)) = Some r"
    show "npid = pid \<longrightarrow> \<not> (\<exists>j. i \<le> j \<and> j < length tpls \<and> ft_program_id (tpls ! j) = pid)"
    proof (intro impI notI)
      assume eq: "npid = pid"
      assume "\<exists>j. i \<le> j \<and> j < length tpls \<and> ft_program_id (tpls ! j) = pid"
      then obtain j where j: "i \<le> j" "j < length tpls" "ft_program_id (tpls ! j) = pid" by blast
      then have i: "i < length tpls" by simp
      show False
      proof (cases "ft_program_id (tpls ! i) = pid")
        case True
        let ?new = "\<lparr>ft_id = gen n, ft_program_id = npid, ft_name = ft_name (tpls ! i),
                     ft_exercises = copy_rows gen (Suc n) (ft_exercises (tpls ! i))\<rparr>"
        from step i True have "ct gen pid npid (Suc i)
                  (Suc n + length (ft_exercises (tpls ! i))) (tpls @ [?new]) = Some r" by simp
        from IH[OF this] eq have "\<not> (\<exists>j. Suc i \<le> j \<and> j < length (tpls @ [?new]) \<and>
             ft_program_id ((tpls @ [?new]) ! j) = pid)" by simp
        moreover have "Suc i \<le> length tpls \<and> length tpls < length (tpls @ [?new]) \<and>
             ft_program_id ((tpls @ [?new]) ! length tpls) = pid" using i eq by simp
        ultimately show False by blast
      next
        case False
        from step i False have "ct gen pid npid (Suc i) n tpls = Some r" by simp
        from IH[OF this] eq
        have "\<not> (\<exists>j. Suc i \<le> j \<and> j < length tpls \<and> ft_program_id (tpls ! j) = pid)" by simp
        moreover from j False have "Suc i \<le> j" by (cases "i = j") auto
        ultimately show False using j by blast
      qed
    qed
  qed
  then show ?thesis by simp
qed

lemma copy_program_collision:
  assumes "find (\<lambda>p. fp_id p = a_program_id args) (f_programs d) = Some program"
    and "gen n = a_program_id args"
    and "\<exists>t\<in>set (f_workout_templates d). ft_program_id t = a_program_id args"
  shows "copy_program gen n d args = None"
proof -
  have pid: "fp_id program = a_program_id args"
    using assms(1) by (auto simp: find_Some_iff)
  from assms(3) obtain j where "j < length (f_workout_templates d)"
      "ft_program_id (f_workout_templates d ! j) = a_program_id args"
    by (auto simp: in_set_conv_nth)
  then have "copy_templates gen (a_program_id args) (a_program_id args) 0 (Suc n)
               (f_workout_templates d) = None"
    using copy_templates_collision[of gen "a_program_id args" 0 "Suc n" "f_workout_templates d"]
    by (cases "copy_templates gen (a_program_id args) (a_program_id args) 0 (Suc n)
               (f_workout_templates d)") auto
  then show ?thesis
    using assms(1,2) by (simp add: copy_program_def require_id_def pid Let_def)
qed

text \<open>
  C9 as stated fails: the identities are not fresh when \<open>gen_id\<close> returns an id in
  use. In the store with the programs \<open>p1\<close> and \<open>p2\<close>, copying \<open>p1\<close> with a
  \<open>gen_id\<close> that returns \<open>p2\<close> gives a second program \<open>p2\<close>, and a template and
  a row of id \<open>p2\<close>; with a \<open>gen_id\<close> that returns \<open>p1\<close> the copy does not return.
\<close>

theorem copy_program_reuses_ids:
  "map fp_id (f_programs two_programs_db) = [''p1'', ''p2''] \<and>
   copy_program (stuck_gen ''p2'') 0 two_programs_db demo_copy_args =
     Some (Inr (3, two_programs_db
       \<lparr>f_programs := f_programs two_programs_db @
          [\<lparr>fp_id = ''p2'', fp_name = ''Base (copy)'', fp_description = ''three days'',
            fp_start_date = ''2024-06-01'', fp_end_date = [], fp_status = ''active'',
            fp_version = 2\<rparr>],
        f_workout_templates := f_workout_templates two_programs_db @
          [\<lparr>ft_id = ''p2'', ft_program_id = ''p2'', ft_name = ''Push'',
            ft_exercises = [\<lparr>frow_id = ''p2'', frow_exercise_id = ''e7'',
                             frow_planned_sets = ''4'', frow_reps = ''6-8'',
                             frow_planned_weight = ''70kg'', frow_rpe = ''7'',
                             frow_rest = ''2m'', frow_comment = []\<rparr>]\<rparr>]\<rparr>)) \<and>
   copy_program (stuck_gen ''p1'') 0 two_programs_db demo_copy_args = None"
proof -
  have ids: "map fp_id (f_programs two_programs_db) = [''p1'', ''p2'']"
    by (simp add: two_programs_db_def file_demo_db_def)
  have run: "copy_program (stuck_gen ''p2'') 0 two_programs_db demo_copy_args =
     Some (Inr (3, two_programs_db
       \<lparr>f_programs := f_programs two_programs_db @
          [\<lparr>fp_id = ''p2'', fp_name = ''Base (copy)'', fp_description = ''three days'',
            fp_start_date = ''2024-06-01'', fp_end_date = [], fp_status = ''active'',
            fp_version = 2\<rparr>],
        f_workout_templates := f_workout_templates two_programs_db @
          [\<lparr>ft_id = ''p2'', ft_program_id = ''p2'', ft_name = ''Push'',
            ft_exercises = [\<lparr>frow_id = ''p2'', frow_exercise_id = ''e7'',
                             frow_planned_sets = ''4'', frow_reps = ''6-8'',
                             frow_planned_weight = ''70kg'', frow_rpe = ''7'',
                             frow_rest = ''2m'', frow_comment = []\<rparr>]\<rparr>]\<rparr>))"
    by (simp add: copy_program_def require_id_def copy_templates_result copy_rows_def
        stuck_gen_def two_programs_db_def file_log_def file_session0_def file_demo_db_def
        demo_copy_args_def Let_def numeral_3_eq_3)
  have stuck: "copy_program (stuck_gen ''p1'') 0 two_programs_db demo_copy_args = None"
    by (rule copy_program_collision[where program = demo_program])
      (simp_all add: stuck_gen_def two_programs_db_def file_demo_db_def demo_copy_args_def
        demo_program_def)
  show ?thesis by (rule conjI[OF ids conjI[OF run stuck]])
qed

text \<open>
  C9 (amended). \<open>copy_program\<close> of GYM/app.py, for a program that exists and a first
  generated id different from the source program's id, returns and appends one program and
  one template per template of the source. The new program is the source with a generated
  id, the given (or default) name, version and dates, and status \<open>active\<close>. The i-th
  copy belongs to the new program and keeps the name of the i-th source template; its rows
  are the source rows with only the id replaced by a generated one, so every other field,
  the \<open>exercise_id\<close> included, is the source's. The ids of the new program, templates
  and rows are, in order of creation, the results of the successive \<open>gen_id\<close> calls,
  whatever these are: nothing compares them with the ids in use. The exercise list is not
  an updated field of the result.
\<close>

theorem copy_program_shares_exercises:
  assumes "find (\<lambda>p. fp_id p = a_program_id args) (f_programs d) = Some program"
    and "gen n \<noteq> a_program_id args"
  shows "\<exists>n' copies.
     copy_program gen n d args =
       Some (Inr (n', d\<lparr>f_programs := f_programs d @
                          [program\<lparr>fp_id := gen n,
                                   fp_name := (case a_name args of
                                                 None \<Rightarrow> fp_name program @ '' (copy)''
                                               | Some nm \<Rightarrow> if nm = [] then fp_name program @ '' (copy)''
                                                            else nm),
                                   fp_version := a_version args,
                                   fp_status := ''active'',
                                   fp_start_date := a_start_date args,
                                   fp_end_date := a_end_date args\<rparr>],
                        f_workout_templates := f_workout_templates d @ copies\<rparr>)) \<and>
     length copies =
       length (filter (\<lambda>t. ft_program_id t = a_program_id args) (f_workout_templates d)) \<and>
     (\<forall>i<length (filter (\<lambda>t. ft_program_id t = a_program_id args) (f_workout_templates d)).
        ft_program_id (copies ! i) = gen n \<and>
        ft_name (copies ! i) =
          ft_name (filter (\<lambda>t. ft_program_id t = a_program_id args) (f_workout_templates d) ! i) \<and>
        length (ft_exercises (copies ! i)) =
          length (ft_exercises
                    (filter (\<lambda>t. ft_program_id t = a_program_id args) (f_workout_templates d) ! i)) \<and>
        (\<forall>j<length (ft_exercises
                      (filter (\<lambda>t. ft_program_id t = a_program_id args) (f_workout_templates d) ! i)).
           \<exists>k. ft_exercises (copies ! i) ! j =
                 (ft_exercises
                    (filter (\<lambda>t. ft_program_id t = a_program_id args) (f_workout_templates d) ! i) ! j)
                 \<lparr>frow_id := gen k\<rparr>)) \<and>
     gen n # concat (map (\<lambda>t. ft_id t # map frow_id (ft_exercises t)) copies) = map gen [n..<n']"
proof -
  let ?srcs = "filter (\<lambda>t. ft_program_id t = a_program_id args) (f_workout_templates d)"
  let ?copies = "copies_of gen (gen n) (Suc n) ?srcs"
  let ?n' = "counter_after (Suc n) ?srcs"
  have pid: "fp_id program = a_program_id args"
    using assms(1) by (auto simp: find_Some_iff)
  have run: "copy_templates gen (a_program_id args) (gen n) 0 (Suc n) (f_workout_templates d) =
      Some (?n', f_workout_templates d @ ?copies)"
    by (rule copy_templates_result) (rule assms(2))
  have res: "copy_program gen n d args =
       Some (Inr (?n', d\<lparr>f_programs := f_programs d @
                          [program\<lparr>fp_id := gen n,
                                   fp_name := (case a_name args of
                                                 None \<Rightarrow> fp_name program @ '' (copy)''
                                               | Some nm \<Rightarrow> if nm = [] then fp_name program @ '' (copy)''
                                                            else nm),
                                   fp_version := a_version args,
                                   fp_status := ''active'',
                                   fp_start_date := a_start_date args,
                                   fp_end_date := a_end_date args\<rparr>],
                        f_workout_templates := f_workout_templates d @ ?copies\<rparr>))"
    using assms(1) run by (simp add: copy_program_def require_id_def pid Let_def)
  have le: "Suc n \<le> ?n'" by (rule counter_after_ge)
  have ids: "gen n # concat (map (\<lambda>t. ft_id t # map frow_id (ft_exercises t)) ?copies) = map gen [n..<?n']"
    using le by (simp add: copies_of_ids upt_conv_Cons)
  show ?thesis
    apply (rule exI[of _ ?n'])
    apply (rule exI[of _ ?copies])
    apply (intro conjI allI impI)
        apply (rule res)
       apply simp
    using copies_of_nth[of _ ?srcs gen "gen n" "Suc n"] apply blast
    using copies_of_nth[of _ ?srcs gen "gen n" "Suc n"] apply blast
    using copies_of_nth[of _ ?srcs gen "gen n" "Suc n"] apply blast
    using copies_of_nth[of _ ?srcs gen "gen n" "Suc n"] apply blast
    apply (rule ids)
    done
qed


theorem copy_program_shares_exercises_witness:
  "find (\<lambda>p. fp_id p = a_program_id demo_copy_args) (f_programs file_demo_db) = Some demo_program \<and>
   demo_gen 0 \<noteq> a_program_id demo_copy_args \<and>
   (\<exists>n' copies.
     copy_program demo_gen 0 file_demo_db demo_copy_args =
       Some (Inr (n', file_demo_db\<lparr>f_programs := f_programs file_demo_db @
                          [demo_program\<lparr>fp_id := demo_gen 0,
                                   fp_name := (case a_name demo_copy_args of
                                                 None \<Rightarrow> fp_name demo_program @ '' (copy)''
                                               | Some nm \<Rightarrow> if nm = [] then fp_name demo_program @ '' (copy)''
                                                            else nm),
                                   fp_version := a_version demo_copy_args,
                                   fp_status := ''active'',
                                   fp_start_date := a_start_date demo_copy_args,
                                   fp_end_date := a_end_date demo_copy_args\<rparr>],
                        f_workout_templates := f_workout_templates file_demo_db @ copies\<rparr>)) \<and>
     length copies =
       length (filter (\<lambda>t. ft_program_id t = a_program_id demo_copy_args) (f_workout_templates file_demo_db)) \<and>
     (\<forall>i<length (filter (\<lambda>t. ft_program_id t = a_program_id demo_copy_args) (f_workout_templates file_demo_db)).
        ft_program_id (copies ! i) = demo_gen 0 \<and>
        ft_name (copies ! i) =
          ft_name (filter (\<lambda>t. ft_program_id t = a_program_id demo_copy_args) (f_workout_templates file_demo_db) ! i) \<and>
        length (ft_exercises (copies ! i)) =
          length (ft_exercises
                    (filter (\<lambda>t. ft_program_id t = a_program_id demo_copy_args) (f_workout_templates file_demo_db) ! i)) \<and>
        (\<forall>j<length (ft_exercises
                      (filter (\<lambda>t. ft_program_id t = a_program_id demo_copy_args) (f_workout_templates file_demo_db) ! i)).
           \<exists>k. ft_exercises (copies ! i) ! j =
                 (ft_exercises
                    (filter (\<lambda>t. ft_program_id t = a_program_id demo_copy_args) (f_workout_templates file_demo_db) ! i) ! j)
                 \<lparr>frow_id := demo_gen k\<rparr>)) \<and>
     demo_gen 0 # concat (map (\<lambda>t. ft_id t # map frow_id (ft_exercises t)) copies) = map demo_gen [0..<n']) \<and>
   copy_program demo_gen 0 file_demo_db demo_copy_args =
     Some (Inr (3, file_demo_db
       \<lparr>f_programs := f_programs file_demo_db @
          [\<lparr>fp_id = ''id0'', fp_name = ''Base (copy)'', fp_description = ''three days'',
            fp_start_date = ''2024-06-01'', fp_end_date = [], fp_status = ''active'',
            fp_version = 2\<rparr>],
        f_workout_templates := f_workout_templates file_demo_db @
          [\<lparr>ft_id = ''id1'', ft_program_id = ''id0'', ft_name = ''Push'',
            ft_exercises = [\<lparr>frow_id = ''id2'', frow_exercise_id = ''e7'',
                             frow_planned_sets = ''4'', frow_reps = ''6-8'',
                             frow_planned_weight = ''70kg'', frow_rpe = ''7'',
                             frow_rest = ''2m'', frow_comment = []\<rparr>]\<rparr>]\<rparr>))"
proof -
  have h1: "find (\<lambda>p. fp_id p = a_program_id demo_copy_args) (f_programs file_demo_db) = Some demo_program"
    by (simp add: file_demo_db_def demo_copy_args_def demo_program_def)
  have h2: "demo_gen 0 \<noteq> a_program_id demo_copy_args"
    by (simp add: demo_gen_values demo_copy_args_def)
  note t = copy_program_shares_exercises[where gen = demo_gen and n = 0, OF h1 h2]
  have run: "copy_program demo_gen 0 file_demo_db demo_copy_args =
     Some (Inr (3, file_demo_db
       \<lparr>f_programs := f_programs file_demo_db @
          [\<lparr>fp_id = ''id0'', fp_name = ''Base (copy)'', fp_description = ''three days'',
            fp_start_date = ''2024-06-01'', fp_end_date = [], fp_status = ''active'',
            fp_version = 2\<rparr>],
        f_workout_templates := f_workout_templates file_demo_db @
          [\<lparr>ft_id = ''id1'', ft_program_id = ''id0'', ft_name = ''Push'',
            ft_exercises = [\<lparr>frow_id = ''id2'', frow_exercise_id = ''e7'',
                             frow_planned_sets = ''4'', frow_reps = ''6-8'',
                             frow_planned_weight = ''70kg'', frow_rpe = ''7'',
                             frow_rest = ''2m'', frow_comment = []\<rparr>]\<rparr>]\<rparr>))"
    by (simp add: copy_program_def require_id_def copy_templates_result copy_rows_def
        demo_gen_values file_log_def file_session0_def file_demo_db_def demo_copy_args_def
        Let_def numeral_3_eq_3)
  show ?thesis by (rule conjI[OF h1 conjI[OF h2 conjI[OF t run]]])
qed
end
